theory Spec2Isabelle
  imports Main "HOL-Library.Sublist"
begin

section \<open>Python strings\<close>

text \<open>
  A Python \<open>str\<close> is modelled as a \<open>string\<close>: the list of the bytes of its UTF-8
  encoding, so that two strings are equal exactly when their byte lists are. The constants of
  the handler (doctor names, \<open>yes\<close>, \<open>no\<close>) are ASCII; a slot value is whatever the
  caller sent.
\<close>

definition lower_char :: "char \<Rightarrow> char" where
  "lower_char c =
     (case map_of (zip ''ABCDEFGHIJKLMNOPQRSTUVWXYZ'' ''abcdefghijklmnopqrstuvwxyz'') c of
        Some l \<Rightarrow> l
      | None \<Rightarrow> c)"

definition upper_char :: "char \<Rightarrow> char" where
  "upper_char c =
     (case map_of (zip ''abcdefghijklmnopqrstuvwxyz'' ''ABCDEFGHIJKLMNOPQRSTUVWXYZ'') c of
        Some u \<Rightarrow> u
      | None \<Rightarrow> c)"

text \<open>
  \<open>s.lower()\<close>. Python lower-cases by Unicode code point. Exactly two code points
  outside ASCII have a lower-case form that contains an ASCII character:

    \<^item> U+212A KELVIN SIGN, bytes \<open>E2 84 AA\<close>, becomes the letter \<open>k\<close>;

    \<^item> U+0130 LATIN CAPITAL LETTER I WITH DOT ABOVE, bytes \<open>C4 B0\<close>, becomes \<open>i\<close>
      followed by U+0307 COMBINING DOT ABOVE, bytes \<open>69 CC 87\<close>.

  Both are mapped here as Python maps them, and \<open>A\<close>..\<open>Z\<close> become \<open>a\<close>..\<open>z\<close>. Every
  other character outside ASCII is left as it is, where Python may replace it by other
  characters outside ASCII. The handler compares a lower-cased string only with the
  lower-case form of an ASCII constant, and such a comparison comes out the same either way:
  a string with a byte outside ASCII equals no ASCII string. In UTF-8 the bytes of one
  character never occur inside or across other characters, so matching the byte
  sequences finds these two characters and nothing else.
\<close>

fun lower :: "string \<Rightarrow> string" where
  "lower (c1 # c2 # c3 # cs) =
     (if c1 = CHR 0xE2 \<and> c2 = CHR 0x84 \<and> c3 = CHR 0xAA then CHR ''k'' # lower cs
      else if c1 = CHR 0xC4 \<and> c2 = CHR 0xB0 then
        CHR ''i'' # CHR 0xCC # CHR 0x87 # lower (c3 # cs)
      else lower_char c1 # lower (c2 # c3 # cs))"
| "lower [c1, c2] =
     (if c1 = CHR 0xC4 \<and> c2 = CHR 0xB0 then [CHR ''i'', CHR 0xCC, CHR 0x87]
      else [lower_char c1, lower_char c2])"
| "lower [c] = [lower_char c]"
| "lower [] = []"

declare lower.simps [simp del]

text \<open>
  \<open>s.upper()\<close> on ASCII text: \<open>a\<close>..\<open>z\<close> become \<open>A\<close>..\<open>Z\<close>, every other byte is
  left as it is. The handler upper-cases one string only, for a variable that it never reads.
\<close>

definition upper :: "string \<Rightarrow> string" where
  "upper s = map upper_char s"

text \<open>\<open>c.isspace()\<close> and \<open>c.isdigit()\<close> on ASCII text.\<close>

definition isspace :: "char \<Rightarrow> bool" where
  "isspace c = (c \<in> set [CHR 0x09, CHR 0x0A, CHR 0x0B, CHR 0x0C, CHR 0x0D,
                           CHR 0x1C, CHR 0x1D, CHR 0x1E, CHR 0x1F, CHR 0x20])"

definition isdigit :: "char \<Rightarrow> bool" where
  "isdigit c = (c \<in> set ''0123456789'')"

text \<open>\<open>s.strip()\<close>.\<close>

definition strip :: "string \<Rightarrow> string" where
  "strip s = rev (dropWhile isspace (rev (dropWhile isspace s)))"

text \<open>\<open>s.replace(c, '')\<close> for a single character \<open>c\<close>.\<close>

definition remove_char :: "char \<Rightarrow> string \<Rightarrow> string" where
  "remove_char c s = filter (\<lambda>x. x \<noteq> c) s"

text \<open>\<open>s.split(c)\<close> for a single character \<open>c\<close>: never the empty list.\<close>

fun split :: "char \<Rightarrow> string \<Rightarrow> string list" where
  "split c [] = [[]]"
| "split c (x # xs) =
     (if x = c then [] # split c xs
      else (case split c xs of
              [] \<Rightarrow> [[x]]
            | p # ps \<Rightarrow> (x # p) # ps))"

text \<open>\<open>sep.join(xs)\<close>.\<close>

fun join :: "string \<Rightarrow> string list \<Rightarrow> string" where
  "join sep [] = []"
| "join sep [x] = x"
| "join sep (x # y # ys) = x @ sep @ join sep (y # ys)"

text \<open>\<open>str(n)\<close> for an integer: decimal digits, with a minus sign below zero.\<close>

definition digit_char :: "nat \<Rightarrow> char" where
  "digit_char d = ''0123456789'' ! d"

function digits :: "nat \<Rightarrow> string" where
  "digits n = (if n < 10 then [digit_char n] else digits (n div 10) @ [digit_char (n mod 10)])"
  by pat_completeness auto
termination
  by (relation "measure id") auto

declare digits.simps [simp del]

definition str :: "int \<Rightarrow> string" where
  "str i = (if i < 0 then CHR ''-'' # digits (nat (- i)) else digits (nat i))"

text \<open>The slice \<open>s[-7:]\<close>: the last seven characters, or all of \<open>s\<close> when it is shorter.\<close>

definition last7 :: "string \<Rightarrow> string" where
  "last7 s = drop (length s - 7) s"

text \<open>
  The \<open>k\<close> low-order decimal digits of \<open>n\<close>, the most significant first, with leading
  zeros: what "the last \<open>k\<close> digits of \<open>n\<close>" means.
\<close>

fun low_digits :: "nat \<Rightarrow> nat \<Rightarrow> string" where
  "low_digits 0 n = []"
| "low_digits (Suc k) n = low_digits k (n div 10) @ [digit_char (n mod 10)]"

text \<open>
  A variable that holds a string or \<open>None\<close>. \<open>truthy\<close> is Python's truth test on it,
  \<open>fmt\<close> is how an f-string renders it, and \<open>str_of\<close> reads the string of a variable
  that a guard has already found truthy.
\<close>

definition truthy :: "string option \<Rightarrow> bool" where
  "truthy v = (case v of None \<Rightarrow> False | Some s \<Rightarrow> s \<noteq> [])"

definition fmt :: "string option \<Rightarrow> string" where
  "fmt v = (case v of None \<Rightarrow> ''None'' | Some s \<Rightarrow> s)"

definition str_of :: "string option \<Rightarrow> string" where
  "str_of v = (case v of None \<Rightarrow> [] | Some s \<Rightarrow> s)"

section \<open>The event and the response\<close>

text \<open>
  The Lex event is a JSON object; a key that may be missing is an \<open>option\<close> field, and
  \<open>None\<close> stands for the missing key. In the slot dictionary a key can be missing
  (\<open>None\<close>), present with the value \<open>None\<close> (\<open>Some None\<close>) or present with a slot.
\<close>

record slot_value =
  originalValue :: "string option"
  interpretedValue :: "string option"
  resolvedValues :: "string list"

record slot =
  slot_value :: "slot_value option"
  shape :: "string option"

type_synonym slots = "string \<rightharpoonup> slot option"

record intent =
  intent_name :: "string option"
  intent_slots :: "slots option"
  intent_state :: "string option"
  confirmationState :: "string option"

record session_state =
  session_intent :: "intent option"

record event =
  sessionState :: "session_state option"
  invocationSource :: "string option"

record dialog_action =
  action_type :: string
  slotToElicit :: "string option"

record message =
  contentType :: string
  content :: string

text \<open>
  The response \<open>{"sessionState": {"dialogAction": .., "intent": ..}, "messages": [..]}\<close>;
  a response without the key \<open>messages\<close> has the empty list.
\<close>

record response =
  dialogAction :: dialog_action
  response_intent :: intent
  messages :: "message list"

datatype exn =
    KeyError string
  | IndexError
  | TypeError
  | StopIteration
  | ClientError string
  | BotoCoreError

definition is_ClientError :: "exn \<Rightarrow> bool" where
  "is_ClientError e = (case e of ClientError c \<Rightarrow> True | _ \<Rightarrow> False)"

definition empty_intent :: intent where
  "empty_intent =
     \<lparr>intent_name = None, intent_slots = None, intent_state = None, confirmationState = None\<rparr>"

definition plain_text :: "string \<Rightarrow> message" where
  "plain_text s = \<lparr>contentType = ''PlainText'', content = s\<rparr>"

definition elicit_slot :: "string \<Rightarrow> intent \<Rightarrow> string \<Rightarrow> response" where
  "elicit_slot slot_name i msg =
     \<lparr>dialogAction = \<lparr>action_type = ''ElicitSlot'', slotToElicit = Some slot_name\<rparr>,
      response_intent = i,
      messages = [plain_text msg]\<rparr>"

definition delegate :: "intent \<Rightarrow> response" where
  "delegate i =
     \<lparr>dialogAction = \<lparr>action_type = ''Delegate'', slotToElicit = None\<rparr>,
      response_intent = i,
      messages = []\<rparr>"

definition close :: "intent \<Rightarrow> string \<Rightarrow> response" where
  "close i msg =
     \<lparr>dialogAction = \<lparr>action_type = ''Close'', slotToElicit = None\<rparr>,
      response_intent = i,
      messages = [plain_text msg]\<rparr>"

section \<open>The tables\<close>

record schedule_item =
  DoctorName :: string
  Date_Time :: string
  Status :: string

record appointment =
  AppointmentId :: string
  appt_DoctorName :: "string option"
  appt_Date :: "string option"
  appt_Time :: "string option"
  appt_Name :: "string option"
  appt_Phone :: "string option"
  appt_Status :: string

text \<open>
  \<open>DoctorSchedule\<close> is the list of its items in scan order (its primary key is the pair
  of \<open>DoctorName\<close> and \<open>Date_Time\<close>), \<open>Appointments\<close> maps an \<open>AppointmentId\<close> to its
  item, and \<open>IdCounters\<close> maps a counter name to its \<open>current_value\<close>.
\<close>

record store =
  schedule_table :: "schedule_item list"
  appointments_table :: "string \<rightharpoonup> appointment"
  id_counter_table :: "string \<rightharpoonup> int"

text \<open>
  A call to the store can fail for a reason of the store's own (throttling, no
  connection). The environment of one turn says, for each call the handler makes, whether
  it raises and what; a call that raises changes nothing.
\<close>

datatype store_op = Scan | UpdateItem | CounterUpdate | PutItem

type_synonym faults = "store_op \<Rightarrow> exn option"

definition no_faults :: faults where
  "no_faults op = None"

text \<open>
  \<open>schedule_table.scan\<close> with the filter
  \<open>DoctorName = :doc AND begins_with(Date_Time, :dt) AND Status = 'available'\<close>. The
  handler reads one page of results; the table is taken to fit in it.
\<close>

definition scan :: "faults \<Rightarrow> store \<Rightarrow> string \<Rightarrow> string \<Rightarrow> exn + schedule_item list" where
  "scan flt db doctor date =
     (case flt Scan of
        Some e \<Rightarrow> Inl e
      | None \<Rightarrow>
          Inr (filter (\<lambda>item. DoctorName item = doctor \<and> prefix date (Date_Time item)
                                \<and> Status item = ''available'')
                 (schedule_table db)))"

text \<open>
  \<open>[item['Date_Time'].split('_')[1] for item in items]\<close>: an item whose \<open>Date_Time\<close> has
  no underscore raises \<open>IndexError\<close>.
\<close>

fun time_labels :: "schedule_item list \<Rightarrow> exn + string list" where
  "time_labels [] = Inr []"
| "time_labels (item # items) =
     (case split (CHR ''_'') (Date_Time item) of
        d # t # rest \<Rightarrow>
          (case time_labels items of
             Inl e \<Rightarrow> Inl e
           | Inr ts \<Rightarrow> Inr (t # ts))
      | _ \<Rightarrow> Inl IndexError)"

definition get_available_times :: "faults \<Rightarrow> store \<Rightarrow> string \<Rightarrow> string \<Rightarrow> exn + string list" where
  "get_available_times flt db doctor date =
     (case scan flt db doctor date of
        Inl e \<Rightarrow> Inl e
      | Inr items \<Rightarrow> time_labels items)"

text \<open>
  \<open>schedule_table.update_item\<close> of lines 262-271: sets \<open>Status\<close> to \<open>booked\<close> on the
  item of the key, on the condition that the item exists and its \<open>Status\<close> is
  \<open>available\<close>. A key attribute that is \<open>None\<close> or the empty string is refused by the
  store. Both refusals are a \<open>ClientError\<close>.
\<close>

definition has_key :: "string \<Rightarrow> string \<Rightarrow> schedule_item \<Rightarrow> bool" where
  "has_key doctor datetime_key item =
     (DoctorName item = doctor \<and> Date_Time item = datetime_key)"

definition update_item :: "faults \<Rightarrow> store \<Rightarrow> string option \<Rightarrow> string \<Rightarrow> exn + store" where
  "update_item flt db doctor datetime_key =
     (case flt UpdateItem of
        Some e \<Rightarrow> Inl e
      | None \<Rightarrow>
          if \<not> truthy doctor then Inl (ClientError ''ValidationException'')
          else if list_ex (\<lambda>item. has_key (str_of doctor) datetime_key item
                                    \<and> Status item = ''available'') (schedule_table db)
          then Inr (db\<lparr>schedule_table :=
                         map (\<lambda>item. if has_key (str_of doctor) datetime_key item
                                      then item\<lparr>Status := ''booked''\<rparr> else item)
                           (schedule_table db)\<rparr>)
          else Inl (ClientError ''ConditionalCheckFailedException''))"

text \<open>
  \<open>get_next_sequence\<close>: one \<open>update_item\<close> on the counter,
  \<open>SET current_value = if_not_exists(current_value, 1000000) + 1\<close>, returning the
  updated value; the result is \<open>str(current_value)[-7:]\<close>. The counter is an integer,
  and \<open>str\<close> of the number the store returns is its plain decimal digits.
\<close>

definition get_next_sequence :: "faults \<Rightarrow> store \<Rightarrow> exn + (string \<times> store)" where
  "get_next_sequence flt db =
     (case flt CounterUpdate of
        Some e \<Rightarrow> Inl e
      | None \<Rightarrow>
          (let current_value =
                 (case id_counter_table db ''appointment_id'' of
                    None \<Rightarrow> 1000000
                  | Some v \<Rightarrow> v) + 1
           in Inr (last7 (str current_value),
                   db\<lparr>id_counter_table :=
                        (id_counter_table db)(''appointment_id'' \<mapsto> current_value)\<rparr>)))"

text \<open>\<open>appointments_table.put_item\<close>: writes the item under its \<open>AppointmentId\<close>.\<close>

definition put_item :: "faults \<Rightarrow> store \<Rightarrow> appointment \<Rightarrow> exn + store" where
  "put_item flt db item =
     (case flt PutItem of
        Some e \<Rightarrow> Inl e
      | None \<Rightarrow>
          Inr (db\<lparr>appointments_table := (appointments_table db)(AppointmentId item \<mapsto> item)\<rparr>))"

section \<open>The handler\<close>

text \<open>\<open>get_slot_value\<close>, lines 28-33.\<close>

definition get_slot_value :: "slots \<Rightarrow> string \<Rightarrow> string option" where
  "get_slot_value slots slot_name =
     (case slots slot_name of
        Some (Some slot) \<Rightarrow>
          (case slot_value slot of
             Some v \<Rightarrow> interpretedValue v
           | None \<Rightarrow> None)
      | _ \<Rightarrow> None)"

text \<open>The assignment \<open>slots[slot_name]['value']['interpretedValue'] = v\<close> of line 79.\<close>

definition set_interpretedValue :: "slots \<Rightarrow> string \<Rightarrow> string \<Rightarrow> exn + slots" where
  "set_interpretedValue slots slot_name v =
     (case slots slot_name of
        None \<Rightarrow> Inl (KeyError slot_name)
      | Some None \<Rightarrow> Inl TypeError
      | Some (Some slot) \<Rightarrow>
          (case slot_value slot of
             None \<Rightarrow> Inl (KeyError ''value'')
           | Some sv \<Rightarrow>
               Inr (slots(slot_name \<mapsto>
                      Some (slot\<lparr>slot_value := Some (sv\<lparr>interpretedValue := Some v\<rparr>)\<rparr>)))))"

definition VALID_DOCTORS :: "string list" where
  "VALID_DOCTORS = [''Dr. Sarah Jones'', ''Dr. Sophia Lee'', ''Dr. David Park'']"

text \<open>The fixed message texts of lines 74, 217, 252, 311 and 332.\<close>

definition choose_doctor_msg :: string where
  "choose_doctor_msg =
     ''Please choose from our available doctors:\<newline>- Dr. Sarah Jones\<newline>- Dr. Sophia Lee\<newline>- Dr. David Park''"

definition start_over_msg :: string where
  "start_over_msg =
     ''Okay, let's start over. Which doctor would you like to book an appointment with?''"

definition canceled_msg :: string where
  "canceled_msg = ''Your booking was canceled. Which doctor would you like to book with?''"

definition conflict_msg :: string where
  "conflict_msg =
     [CHR 0xE2, CHR 0x9D, CHR 0x8C]
       @ '' Sorry, that time slot was just booked by someone else. Please try another time.''"

definition apology_msg :: string where
  "apology_msg = ''Something went wrong. Please try again later.''"

text \<open>The slots of the two restart responses (lines 204-211 and 239-246).\<close>

definition reset_slots :: slots where
  "reset_slots =
     [''DoctorName'' \<mapsto> None, ''Date'' \<mapsto> None, ''Time'' \<mapsto> None,
      ''Name'' \<mapsto> None, ''Phone'' \<mapsto> None, ''Confirmation'' \<mapsto> None]"

definition reset_intent :: "string \<Rightarrow> intent" where
  "reset_intent n =
     \<lparr>intent_name = Some n, intent_slots = Some reset_slots,
      intent_state = Some ''InProgress'', confirmationState = None\<rparr>"

definition restart :: "intent \<Rightarrow> string \<Rightarrow> exn + response" where
  "restart intent msg =
     (case intent_name intent of
        None \<Rightarrow> Inl (KeyError ''name'')
      | Some n \<Rightarrow> Inr (elicit_slot ''DoctorName'' (reset_intent n) msg))"

text \<open>Step 1, lines 88-118: doctor and date are known, the time is not.\<close>

definition step1 ::
  "faults \<Rightarrow> store \<Rightarrow> intent \<Rightarrow> slots \<Rightarrow> string option \<Rightarrow> string option \<Rightarrow> string option
     \<Rightarrow> (exn + response) option" where
  "step1 flt db intent slots doctor date time =
     (if truthy doctor \<and> truthy date \<and> \<not> truthy time then
        Some (case get_available_times flt db (str_of doctor) (str_of date) of
                Inl e \<Rightarrow> Inl e
              | Inr available_times \<Rightarrow>
                  if available_times = [] then
                    Inr (elicit_slot ''Date''
                           (intent\<lparr>intent_slots := Some (slots(''Date'' \<mapsto> None))\<rparr>)
                           (''Sorry, '' @ fmt doctor @ '' has no available slots on '' @ fmt date
                              @ ''. Please choose another date.''))
                  else
                    Inr (elicit_slot ''Time'' intent
                           (fmt doctor @ '' is available on '' @ fmt date @ '' at: ''
                              @ join '', '' available_times @ ''. Please choose a time.'')))
      else None)"

text \<open>
  Steps 2 and 3, lines 121-172: doctor, date and time are known. The time is looked up in
  the availability list, then the name and the phone number are asked for.
\<close>

definition step2 ::
  "faults \<Rightarrow> store \<Rightarrow> intent \<Rightarrow> string option \<Rightarrow> string option \<Rightarrow> string option
     \<Rightarrow> string option \<Rightarrow> string option \<Rightarrow> (exn + response) option" where
  "step2 flt db intent doctor date time name phone =
     (if truthy doctor \<and> truthy date \<and> truthy time then
        (case get_available_times flt db (str_of doctor) (str_of date) of
           Inl e \<Rightarrow> Some (Inl e)
         | Inr available_times \<Rightarrow>
             (let normalized_time =
                    remove_char (CHR ''.'') (remove_char (CHR '' '') (upper (strip (str_of time))));
                  normalized_time = filter (\<lambda>c. isdigit c \<or> c = CHR '':'') normalized_time
              in
                if str_of time \<notin> set available_times then
                  Some (Inr (elicit_slot ''Time'' intent
                               (''Sorry, '' @ fmt time @ '' is not available. '' @ fmt doctor
                                  @ '' is available on '' @ fmt date @ '' at: ''
                                  @ join '', '' available_times
                                  @ ''. Please choose one of these times.'')))
                else if \<not> truthy name then
                  Some (Inr (elicit_slot ''Name'' intent ''May I know your name?''))
                else if \<not> truthy phone then
                  Some (Inr (elicit_slot ''Phone'' intent
                               ''Could you please provide your phone number?''))
                else None))
      else None)"

text \<open>Step 4, lines 175-189: everything but the confirmation is known.\<close>

definition step4 ::
  "intent \<Rightarrow> string option \<Rightarrow> string option \<Rightarrow> string option \<Rightarrow> string option
     \<Rightarrow> string option \<Rightarrow> string option \<Rightarrow> (exn + response) option" where
  "step4 intent doctor date time name phone confirmation =
     (if truthy doctor \<and> truthy date \<and> truthy time \<and> truthy name \<and> truthy phone
         \<and> \<not> truthy confirmation then
        Some (Inr (elicit_slot ''Confirmation'' intent
                     (''Please confirm your booking details:\<newline>Doctor: '' @ fmt doctor
                        @ ''\<newline>Date: '' @ fmt date @ ''\<newline>Time: '' @ fmt time
                        @ ''\<newline>Name: '' @ fmt name @ ''\<newline>Phone: '' @ fmt phone
                        @ ''\<newline>Is this correct?'')))
      else None)"

text \<open>Step 5, lines 192-226: the confirmation slot holds a value.\<close>

definition step5 :: "intent \<Rightarrow> string option \<Rightarrow> (exn + response) option" where
  "step5 intent confirmation =
     (if truthy confirmation then
        (if lower (str_of confirmation) = ''no'' then
           Some (restart intent start_over_msg)
         else if lower (str_of confirmation) = ''yes'' then
           Some (Inr (delegate intent))
         else None)
      else None)"

text \<open>Step 6, lines 229-254: Lex reports that its own confirmation was denied.\<close>

definition step6 :: "intent \<Rightarrow> string \<Rightarrow> (exn + response) option" where
  "step6 intent confirmation_state =
     (if confirmation_state = ''Denied'' then
        Some (restart intent canceled_msg)
      else None)"

text \<open>The response of lines 287-300; \<open>intent['name']\<close> raises when the key is missing.\<close>

definition confirmed ::
  "intent \<Rightarrow> string \<Rightarrow> string option \<Rightarrow> string option \<Rightarrow> string option \<Rightarrow> exn + response" where
  "confirmed intent appointment_id doctor date time =
     (case intent_name intent of
        None \<Rightarrow> Inl (KeyError ''name'')
      | Some n \<Rightarrow>
          Inr (close
                 \<lparr>intent_name = Some n, intent_slots = intent_slots intent,
                  intent_state = Some ''Fulfilled'', confirmationState = None\<rparr>
                 ([CHR 0xE2, CHR 0x9C, CHR 0x85]
                    @ '' Appointment confirmed!\<newline>ID: '' @ appointment_id
                    @ ''\<newline>Doctor: '' @ fmt doctor
                    @ ''\<newline>Date: '' @ fmt date
                    @ ''\<newline>Time: '' @ fmt time)))"

text \<open>
  Step 7, lines 258-313: the booking. A \<open>ClientError\<close> raised anywhere in the inner
  \<open>try\<close> becomes the conflict response; any other exception leaves the block. What the
  store calls before the exception wrote stays written.
\<close>

definition booking_failed :: "intent \<Rightarrow> exn \<Rightarrow> exn + response" where
  "booking_failed intent e =
     (if is_ClientError e then
        Inr (close intent conflict_msg)
      else Inl e)"

definition step7 ::
  "faults \<Rightarrow> store \<Rightarrow> intent \<Rightarrow> string option \<Rightarrow> string option \<Rightarrow> string option
     \<Rightarrow> string option \<Rightarrow> string option \<Rightarrow> (exn + response) \<times> store" where
  "step7 flt db intent doctor date time name phone =
     (let datetime_key = fmt date @ ''_'' @ fmt time in
      case update_item flt db doctor datetime_key of
        Inl e \<Rightarrow> (booking_failed intent e, db)
      | Inr db1 \<Rightarrow>
          (case get_next_sequence flt db1 of
             Inl e \<Rightarrow> (booking_failed intent e, db1)
           | Inr (appointment_id, db2) \<Rightarrow>
               (case put_item flt db2
                       \<lparr>AppointmentId = appointment_id, appt_DoctorName = doctor,
                        appt_Date = date, appt_Time = time, appt_Name = name,
                        appt_Phone = phone, appt_Status = ''confirmed''\<rparr> of
                  Inl e \<Rightarrow> (booking_failed intent e, db2)
                | Inr db3 \<Rightarrow>
                    (case confirmed intent appointment_id doctor date time of
                       Inl e \<Rightarrow> (booking_failed intent e, db3)
                     | Inr r \<Rightarrow> (Inr r, db3)))))"

text \<open>
  Lines 81-321: the rest of the \<open>try\<close> body once the doctor is settled. \<open>intent\<close> and
  \<open>slots\<close> are the event's, as line 79 has left them.
\<close>

definition dialog_steps ::
  "faults \<Rightarrow> store \<Rightarrow> intent \<Rightarrow> slots \<Rightarrow> string \<Rightarrow> string \<Rightarrow> string option
     \<Rightarrow> (exn + response) \<times> store" where
  "dialog_steps flt db intent slots invocation_source confirmation_state doctor =
     (let date = get_slot_value slots ''Date'';
          time = get_slot_value slots ''Time'';
          name = get_slot_value slots ''Name'';
          phone = get_slot_value slots ''Phone'';
          confirmation = get_slot_value slots ''Confirmation''
      in
        case step1 flt db intent slots doctor date time of
          Some r \<Rightarrow> (r, db)
        | None \<Rightarrow>
        (case step2 flt db intent doctor date time name phone of
          Some r \<Rightarrow> (r, db)
        | None \<Rightarrow>
        (case step4 intent doctor date time name phone confirmation of
          Some r \<Rightarrow> (r, db)
        | None \<Rightarrow>
        (case step5 intent confirmation of
          Some r \<Rightarrow> (r, db)
        | None \<Rightarrow>
        (case step6 intent confirmation_state of
          Some r \<Rightarrow> (r, db)
        | None \<Rightarrow>
            if invocation_source = ''FulfillmentCodeHook'' \<and> confirmation_state = ''Confirmed''
            then step7 flt db intent doctor date time name phone
            else (Inr (delegate intent), db))))))"

text \<open>
  Lines 50-321, the body of the outer \<open>try\<close>. It returns the response or the exception
  that left it, the store, and the event as the body has left it: line 79 writes the
  doctor's canonical name into the event's own slot.
\<close>

definition try_body :: "faults \<Rightarrow> store \<Rightarrow> event \<Rightarrow> (exn + response) \<times> store \<times> event" where
  "try_body flt db event =
     (case sessionState event of
        None \<Rightarrow> (Inl (KeyError ''sessionState''), db, event)
      | Some session \<Rightarrow>
     (case session_intent session of
        None \<Rightarrow> (Inl (KeyError ''intent''), db, event)
      | Some intent \<Rightarrow>
     (case intent_slots intent of
        None \<Rightarrow> (Inl (KeyError ''slots''), db, event)
      | Some slots \<Rightarrow>
     (case invocationSource event of
        None \<Rightarrow> (Inl (KeyError ''invocationSource''), db, event)
      | Some invocation_source \<Rightarrow>
          (let confirmation_state =
                 (case confirmationState intent of None \<Rightarrow> [] | Some s \<Rightarrow> s);
               doctor = get_slot_value slots ''DoctorName''
           in
             if truthy doctor then
               if \<not> list_ex (\<lambda>d. lower d = lower (str_of doctor)) VALID_DOCTORS then
                 (Inr (elicit_slot ''DoctorName'' intent choose_doctor_msg), db, event)
               else
                 (case find (\<lambda>d. lower d = lower (str_of doctor)) VALID_DOCTORS of
                    None \<Rightarrow> (Inl StopIteration, db, event)
                  | Some d \<Rightarrow>
                      (case set_interpretedValue slots ''DoctorName'' d of
                         Inl e \<Rightarrow> (Inl e, db, event)
                       | Inr slots' \<Rightarrow>
                           (let intent' = intent\<lparr>intent_slots := Some slots'\<rparr>;
                                event' = event\<lparr>sessionState :=
                                           Some (session\<lparr>session_intent := Some intent'\<rparr>)\<rparr>;
                                (r, db') = dialog_steps flt db intent' slots' invocation_source
                                             confirmation_state (Some d)
                            in (r, db', event'))))
             else
               (let (r, db') = dialog_steps flt db intent slots invocation_source
                                 confirmation_state doctor
                in (r, db', event)))))))"

text \<open>
  \<open>lambda_handler\<close>, lines 48-334. The outer \<open>except\<close> closes the session with the
  intent it reads from the event, \<open>event.get('sessionState', {}).get('intent', {})\<close>.
\<close>

definition event_intent :: "event \<Rightarrow> intent" where
  "event_intent event =
     (case sessionState event of
        None \<Rightarrow> empty_intent
      | Some session \<Rightarrow>
          (case session_intent session of
             None \<Rightarrow> empty_intent
           | Some intent \<Rightarrow> intent))"

definition lambda_handler :: "faults \<Rightarrow> store \<Rightarrow> event \<Rightarrow> response \<times> store" where
  "lambda_handler flt db event =
     (case try_body flt db event of
        (Inr r, db', event') \<Rightarrow> (r, db')
      | (Inl e, db', event') \<Rightarrow>
          (close (event_intent event') apology_msg, db'))"

section \<open>The handler without the time normalisation\<close>

text \<open>
  The handler with lines 124-126 removed (the computation of \<open>normalized_time\<close>) and
  nothing else changed.
\<close>

definition step2_without_normalization ::
  "faults \<Rightarrow> store \<Rightarrow> intent \<Rightarrow> string option \<Rightarrow> string option \<Rightarrow> string option
     \<Rightarrow> string option \<Rightarrow> string option \<Rightarrow> (exn + response) option" where
  "step2_without_normalization flt db intent doctor date time name phone =
     (if truthy doctor \<and> truthy date \<and> truthy time then
        (case get_available_times flt db (str_of doctor) (str_of date) of
           Inl e \<Rightarrow> Some (Inl e)
         | Inr available_times \<Rightarrow>
             (if str_of time \<notin> set available_times then
                Some (Inr (elicit_slot ''Time'' intent
                             (''Sorry, '' @ fmt time @ '' is not available. '' @ fmt doctor
                                @ '' is available on '' @ fmt date @ '' at: ''
                                @ join '', '' available_times
                                @ ''. Please choose one of these times.'')))
              else if \<not> truthy name then
                Some (Inr (elicit_slot ''Name'' intent ''May I know your name?''))
              else if \<not> truthy phone then
                Some (Inr (elicit_slot ''Phone'' intent
                             ''Could you please provide your phone number?''))
              else None))
      else None)"

definition dialog_steps_without_normalization ::
  "faults \<Rightarrow> store \<Rightarrow> intent \<Rightarrow> slots \<Rightarrow> string \<Rightarrow> string \<Rightarrow> string option
     \<Rightarrow> (exn + response) \<times> store" where
  "dialog_steps_without_normalization flt db intent slots invocation_source confirmation_state doctor =
     (let date = get_slot_value slots ''Date'';
          time = get_slot_value slots ''Time'';
          name = get_slot_value slots ''Name'';
          phone = get_slot_value slots ''Phone'';
          confirmation = get_slot_value slots ''Confirmation''
      in
        case step1 flt db intent slots doctor date time of
          Some r \<Rightarrow> (r, db)
        | None \<Rightarrow>
        (case step2_without_normalization flt db intent doctor date time name phone of
          Some r \<Rightarrow> (r, db)
        | None \<Rightarrow>
        (case step4 intent doctor date time name phone confirmation of
          Some r \<Rightarrow> (r, db)
        | None \<Rightarrow>
        (case step5 intent confirmation of
          Some r \<Rightarrow> (r, db)
        | None \<Rightarrow>
        (case step6 intent confirmation_state of
          Some r \<Rightarrow> (r, db)
        | None \<Rightarrow>
            if invocation_source = ''FulfillmentCodeHook'' \<and> confirmation_state = ''Confirmed''
            then step7 flt db intent doctor date time name phone
            else (Inr (delegate intent), db))))))"

definition try_body_without_normalization :: "faults \<Rightarrow> store \<Rightarrow> event \<Rightarrow> (exn + response) \<times> store \<times> event" where
  "try_body_without_normalization flt db event =
     (case sessionState event of
        None \<Rightarrow> (Inl (KeyError ''sessionState''), db, event)
      | Some session \<Rightarrow>
     (case session_intent session of
        None \<Rightarrow> (Inl (KeyError ''intent''), db, event)
      | Some intent \<Rightarrow>
     (case intent_slots intent of
        None \<Rightarrow> (Inl (KeyError ''slots''), db, event)
      | Some slots \<Rightarrow>
     (case invocationSource event of
        None \<Rightarrow> (Inl (KeyError ''invocationSource''), db, event)
      | Some invocation_source \<Rightarrow>
          (let confirmation_state =
                 (case confirmationState intent of None \<Rightarrow> [] | Some s \<Rightarrow> s);
               doctor = get_slot_value slots ''DoctorName''
           in
             if truthy doctor then
               if \<not> list_ex (\<lambda>d. lower d = lower (str_of doctor)) VALID_DOCTORS then
                 (Inr (elicit_slot ''DoctorName'' intent choose_doctor_msg), db, event)
               else
                 (case find (\<lambda>d. lower d = lower (str_of doctor)) VALID_DOCTORS of
                    None \<Rightarrow> (Inl StopIteration, db, event)
                  | Some d \<Rightarrow>
                      (case set_interpretedValue slots ''DoctorName'' d of
                         Inl e \<Rightarrow> (Inl e, db, event)
                       | Inr slots' \<Rightarrow>
                           (let intent' = intent\<lparr>intent_slots := Some slots'\<rparr>;
                                event' = event\<lparr>sessionState :=
                                           Some (session\<lparr>session_intent := Some intent'\<rparr>)\<rparr>;
                                (r, db') = dialog_steps_without_normalization flt db intent' slots' invocation_source
                                             confirmation_state (Some d)
                            in (r, db', event'))))
             else
               (let (r, db') = dialog_steps_without_normalization flt db intent slots invocation_source
                                 confirmation_state doctor
                in (r, db', event)))))))"

definition lambda_handler_without_normalization :: "faults \<Rightarrow> store \<Rightarrow> event \<Rightarrow> response \<times> store" where
  "lambda_handler_without_normalization flt db event =
     (case try_body_without_normalization flt db event of
        (Inr r, db', event') \<Rightarrow> (r, db')
      | (Inl e, db', event') \<Rightarrow>
          (close (event_intent event') apology_msg, db'))"

section \<open>Two bookings at once\<close>

text \<open>
  Two invocations of the handler reach step 7 at the same time. Each of the three store
  calls of a booking is one atomic step of the store, and the steps of the two bookings
  interleave in any order. A booking is at its \<open>update_item\<close>, at its
  \<open>get_next_sequence\<close>, at its \<open>put_item\<close> (holding the appointment id), or has returned.
\<close>

record booking =
  b_intent :: intent
  b_doctor :: "string option"
  b_date :: "string option"
  b_time :: "string option"
  b_name :: "string option"
  b_phone :: "string option"

datatype pc = AtUpdate | AtSequence | AtPut string | Returned "exn + response"

fun booking_step :: "faults \<Rightarrow> booking \<Rightarrow> pc \<Rightarrow> store \<Rightarrow> pc \<times> store" where
  "booking_step flt b AtUpdate db =
     (case update_item flt db (b_doctor b) (fmt (b_date b) @ ''_'' @ fmt (b_time b)) of
        Inl e \<Rightarrow> (Returned (booking_failed (b_intent b) e), db)
      | Inr db1 \<Rightarrow> (AtSequence, db1))"
| "booking_step flt b AtSequence db =
     (case get_next_sequence flt db of
        Inl e \<Rightarrow> (Returned (booking_failed (b_intent b) e), db)
      | Inr (appointment_id, db2) \<Rightarrow> (AtPut appointment_id, db2))"
| "booking_step flt b (AtPut appointment_id) db =
     (case put_item flt db
             \<lparr>AppointmentId = appointment_id, appt_DoctorName = b_doctor b,
              appt_Date = b_date b, appt_Time = b_time b, appt_Name = b_name b,
              appt_Phone = b_phone b, appt_Status = ''confirmed''\<rparr> of
        Inl e \<Rightarrow> (Returned (booking_failed (b_intent b) e), db)
      | Inr db3 \<Rightarrow>
          (case confirmed (b_intent b) appointment_id (b_doctor b) (b_date b) (b_time b) of
             Inl e \<Rightarrow> (Returned (booking_failed (b_intent b) e), db3)
           | Inr r \<Rightarrow> (Returned (Inr r), db3)))"
| "booking_step flt b (Returned r) db = (Returned r, db)"

text \<open>
  One step of the pair: the scheduler's choice \<open>True\<close> lets the first booking make its
  next store call, \<open>False\<close> the second. A run follows a list of such choices from the
  state where both are about to start.
\<close>

fun interleave_step ::
  "faults \<Rightarrow> booking \<Rightarrow> booking \<Rightarrow> pc \<times> pc \<times> store \<Rightarrow> bool \<Rightarrow> pc \<times> pc \<times> store" where
  "interleave_step flt b1 b2 (p1, p2, db) first =
     (if first then (case booking_step flt b1 p1 db of (p1', db') \<Rightarrow> (p1', p2, db'))
      else (case booking_step flt b2 p2 db of (p2', db') \<Rightarrow> (p1, p2', db')))"

definition interleave ::
  "faults \<Rightarrow> booking \<Rightarrow> booking \<Rightarrow> bool list \<Rightarrow> store \<Rightarrow> pc \<times> pc \<times> store" where
  "interleave flt b1 b2 schedule db =
     foldl (interleave_step flt b1 b2) (AtUpdate, AtUpdate, db) schedule"

text \<open>The slot of a key is open when the table holds it with the status \<open>available\<close>.\<close>

definition slot_available :: "store \<Rightarrow> string \<Rightarrow> string \<Rightarrow> bool" where
  "slot_available db doctor datetime_key =
     list_ex (\<lambda>item. has_key doctor datetime_key item \<and> Status item = ''available'')
       (schedule_table db)"

definition slot_booked :: "store \<Rightarrow> string \<Rightarrow> string \<Rightarrow> bool" where
  "slot_booked db doctor datetime_key =
     list_ex (\<lambda>item. has_key doctor datetime_key item \<and> Status item = ''booked'')
       (schedule_table db)"

text \<open>
  How many store calls a booking has behind it, the key it books, the state of a booking
  that has returned the conflict response, and a booking running on its own for \<open>k\<close>
  steps.
\<close>

fun steps_taken :: "pc \<Rightarrow> nat" where
  "steps_taken AtUpdate = 0"
| "steps_taken AtSequence = 1"
| "steps_taken (AtPut appointment_id) = 2"
| "steps_taken (Returned r) = 3"

definition booking_key :: "booking \<Rightarrow> string" where
  "booking_key b = fmt (b_date b) @ ''_'' @ fmt (b_time b)"

definition conflict :: "booking \<Rightarrow> pc" where
  "conflict b = Returned (Inr (close (b_intent b) conflict_msg))"

definition alone_after :: "booking \<Rightarrow> store \<Rightarrow> nat \<Rightarrow> pc \<times> store" where
  "alone_after b db k = ((\<lambda>(p, s). booking_step no_faults b p s) ^^ k) (AtUpdate, db)"

text \<open>
  The invariant of a run from a store \<open>db0\<close> whose slot is open: both bookings are
  about to start; or one of them has run some steps as if alone from \<open>db0\<close>, while the
  other has not started or has returned the conflict response.
\<close>

definition one_winner :: "booking \<Rightarrow> booking \<Rightarrow> store \<Rightarrow> pc \<times> pc \<times> store \<Rightarrow> bool" where
  "one_winner b1 b2 db0 cfg =
     (case cfg of (p1, p2, db) \<Rightarrow>
        (p1 = AtUpdate \<and> p2 = AtUpdate \<and> db = db0)
      \<or> (\<exists>k. 0 < k \<and> alone_after b1 db0 k = (p1, db) \<and> (p2 = AtUpdate \<or> p2 = conflict b2))
      \<or> (\<exists>k. 0 < k \<and> alone_after b2 db0 k = (p2, db) \<and> (p1 = AtUpdate \<or> p1 = conflict b1)))"

text \<open>
  The schedule as the generator writes it: every \<open>Date_Time\<close> is a ten-character date,
  an underscore and a time, and no two items share a key.
\<close>

definition well_formed_key :: "string \<Rightarrow> bool" where
  "well_formed_key k =
     (case split (CHR ''_'') k of
        [d, t] \<Rightarrow> length d = 10
      | _ \<Rightarrow> False)"

definition well_formed_schedule :: "store \<Rightarrow> bool" where
  "well_formed_schedule db =
     (list_all (\<lambda>item. well_formed_key (Date_Time item)) (schedule_table db)
      \<and> distinct (map (\<lambda>item. (DoctorName item, Date_Time item)) (schedule_table db)))"

section \<open>Example inputs\<close>

definition filled :: "string \<Rightarrow> slot option" where
  "filled v =
     Some \<lparr>slot_value = Some \<lparr>originalValue = Some v, interpretedValue = Some v,
                               resolvedValues = [v]\<rparr>,
           shape = Some ''Scalar''\<rparr>"

definition lex_intent :: "slots \<Rightarrow> string \<Rightarrow> intent" where
  "lex_intent slots confirmation_state =
     \<lparr>intent_name = Some ''BookAppointment'', intent_slots = Some slots,
      intent_state = Some ''InProgress'', confirmationState = Some confirmation_state\<rparr>"

definition lex_session :: "slots \<Rightarrow> string \<Rightarrow> session_state" where
  "lex_session slots confirmation_state =
     \<lparr>session_intent = Some (lex_intent slots confirmation_state)\<rparr>"

definition lex_event :: "slots \<Rightarrow> string \<Rightarrow> string \<Rightarrow> event" where
  "lex_event slots invocation_source confirmation_state =
     \<lparr>sessionState = Some (lex_session slots confirmation_state),
      invocationSource = Some invocation_source\<rparr>"

definition example_store :: store where
  "example_store =
     \<lparr>schedule_table =
        [\<lparr>DoctorName = ''Dr. Sarah Jones'', Date_Time = ''2025-05-05_09:00'',
          Status = ''available''\<rparr>,
         \<lparr>DoctorName = ''Dr. Sarah Jones'', Date_Time = ''2025-05-05_10:00'',
          Status = ''booked''\<rparr>,
         \<lparr>DoctorName = ''Dr. Sarah Jones'', Date_Time = ''2025-05-05_11:00'',
          Status = ''available''\<rparr>],
      appointments_table = Map.empty,
      id_counter_table = Map.empty\<rparr>"

definition all_filled :: "string \<Rightarrow> string \<Rightarrow> slots" where
  "all_filled time confirmation =
     [''DoctorName'' \<mapsto> filled ''Dr. Sarah Jones'', ''Date'' \<mapsto> filled ''2025-05-05'',
      ''Time'' \<mapsto> filled time, ''Name'' \<mapsto> filled ''Ann Lee'',
      ''Phone'' \<mapsto> filled ''5550100'', ''Confirmation'' \<mapsto> filled confirmation]"

text \<open>A store whose appointment counter holds \<open>v\<close>, or is absent.\<close>

definition counter_store :: "int option \<Rightarrow> store" where
  "counter_store v =
     \<lparr>schedule_table = [], appointments_table = Map.empty,
      id_counter_table = (\<lambda>k. if k = ''appointment_id'' then v else None)\<rparr>"

definition no_time_slots :: "string \<Rightarrow> slots" where
  "no_time_slots confirmation =
     [''DoctorName'' \<mapsto> filled ''Dr. Sarah Jones'', ''Date'' \<mapsto> filled ''2025-05-05'',
      ''Time'' \<mapsto> None, ''Confirmation'' \<mapsto> filled confirmation]"

definition doctor_only_slots :: slots where
  "doctor_only_slots = [''DoctorName'' \<mapsto> filled ''Dr. Sarah Jones'']"

text \<open>
  A turn on which the scan is refused by the store, and an event whose doctor name is
  valid but not in canonical case, before and after line 79.
\<close>

definition scan_unavailable :: faults where
  "scan_unavailable =
     no_faults(Scan := Some (ClientError ''ProvisionedThroughputExceededException''))"

definition lowercase_doctor_slots :: slots where
  "lowercase_doctor_slots =
     [''DoctorName'' \<mapsto> filled ''dr. sarah jones'', ''Date'' \<mapsto> filled ''2025-05-05'']"

definition canonical_doctor_slots :: slots where
  "canonical_doctor_slots =
     [''DoctorName'' \<mapsto>
        Some \<lparr>slot_value = Some \<lparr>originalValue = Some ''dr. sarah jones'',
                                  interpretedValue = Some ''Dr. Sarah Jones'',
                                  resolvedValues = [''dr. sarah jones'']\<rparr>,
              shape = Some ''Scalar''\<rparr>,
      ''Date'' \<mapsto> filled ''2025-05-05'']"

text \<open>The booking of the 09:00 slot for a patient.\<close>

definition booking_for :: "string \<Rightarrow> booking" where
  "booking_for patient =
     \<lparr>b_intent = lex_intent ((all_filled ''09:00'' ''ok'')(''Name'' \<mapsto> filled patient))
                   ''Confirmed'',
      b_doctor = Some ''Dr. Sarah Jones'', b_date = Some ''2025-05-05'',
      b_time = Some ''09:00'', b_name = Some patient, b_phone = Some ''5550100''\<rparr>"

definition unknown_doctor_slots :: slots where
  "unknown_doctor_slots = [''DoctorName'' \<mapsto> filled ''Dr. Who'', ''Date'' \<mapsto> None]"

text \<open>
  The name \<open>Dr. David Park\<close> with U+212A KELVIN SIGN for its last letter, an event
  whose only slot holds it, and that slot after line 79.
\<close>

definition kelvin_sign_name :: string where
  "kelvin_sign_name = ''Dr. David Par'' @ [CHR 0xE2, CHR 0x84, CHR 0xAA]"

definition kelvin_doctor_slots :: slots where
  "kelvin_doctor_slots = [''DoctorName'' \<mapsto> filled kelvin_sign_name]"

definition park_doctor_slots :: slots where
  "park_doctor_slots =
     [''DoctorName'' \<mapsto>
        Some \<lparr>slot_value = Some \<lparr>originalValue = Some kelvin_sign_name,
                                  interpretedValue = Some ''Dr. David Park'',
                                  resolvedValues = [kelvin_sign_name]\<rparr>,
              shape = Some ''Scalar''\<rparr>]"

section \<open>Slots and the doctor's name\<close>

lemma get_slot_value_set_other:
  "set_interpretedValue slots k v = Inr slots' \<Longrightarrow> k' \<noteq> k
     \<Longrightarrow> get_slot_value slots' k' = get_slot_value slots k'"
  by (auto simp: set_interpretedValue_def get_slot_value_def split: option.splits)

lemma get_slot_value_set_same:
  "set_interpretedValue slots k v = Inr slots' \<Longrightarrow> get_slot_value slots' k = Some v"
  by (auto simp: set_interpretedValue_def get_slot_value_def split: option.splits)

lemma set_interpretedValue_defined:
  "get_slot_value slots k = Some d \<Longrightarrow> \<exists>slots'. set_interpretedValue slots k v = Inr slots'"
  by (auto simp: set_interpretedValue_def get_slot_value_def split: option.splits)

lemma find_list_ex: "list_ex P xs \<Longrightarrow> \<exists>x. find P xs = Some x"
  by (induction xs) auto

lemma find_holds: "find P xs = Some x \<Longrightarrow> x \<in> set xs \<and> P x"
  by (induction xs) (auto split: if_splits)

lemma valid_doctor_truthy: "find P VALID_DOCTORS = Some dn \<Longrightarrow> truthy (Some dn)"
proof -
  assume "find P VALID_DOCTORS = Some dn"
  then have "dn \<in> set VALID_DOCTORS" by (simp add: find_holds)
  then show ?thesis by (auto simp: VALID_DOCTORS_def truthy_def)
qed

section \<open>The body of the handler, by the doctor's name\<close>

lemma try_body_invalid_doctor:
  assumes "sessionState event = Some session" and "session_intent session = Some intent"
    and "intent_slots intent = Some slots" and "invocationSource event = Some src"
    and "get_slot_value slots ''DoctorName'' = Some d" and "d \<noteq> []"
    and "\<not> list_ex (\<lambda>v. lower v = lower d) VALID_DOCTORS"
  shows "try_body flt db event = (Inr (elicit_slot ''DoctorName'' intent choose_doctor_msg), db, event)"
  using assms by (simp add: try_body_def truthy_def str_of_def)

lemma try_body_valid_doctor:
  assumes "sessionState event = Some session" and "session_intent session = Some intent"
    and "intent_slots intent = Some slots" and "invocationSource event = Some src"
    and "get_slot_value slots ''DoctorName'' = Some d" and "d \<noteq> []"
    and "find (\<lambda>v. lower v = lower d) VALID_DOCTORS = Some dn"
    and "set_interpretedValue slots ''DoctorName'' dn = Inr slots'"
  shows "try_body flt db event =
           (fst (dialog_steps flt db (intent\<lparr>intent_slots := Some slots'\<rparr>) slots' src
                   (case confirmationState intent of None \<Rightarrow> [] | Some s \<Rightarrow> s) (Some dn)),
            snd (dialog_steps flt db (intent\<lparr>intent_slots := Some slots'\<rparr>) slots' src
                   (case confirmationState intent of None \<Rightarrow> [] | Some s \<Rightarrow> s) (Some dn)),
            event\<lparr>sessionState :=
                    Some (session\<lparr>session_intent := Some (intent\<lparr>intent_slots := Some slots'\<rparr>)\<rparr>)\<rparr>)"
proof -
  have "list_ex (\<lambda>v. lower v = lower d) VALID_DOCTORS"
    using assms(7) by (auto simp: list_ex_iff dest: find_holds)
  then show ?thesis
    using assms by (simp add: try_body_def truthy_def str_of_def Let_def split_beta)
qed

lemma try_body_no_doctor:
  assumes "sessionState event = Some session" and "session_intent session = Some intent"
    and "intent_slots intent = Some slots" and "invocationSource event = Some src"
    and "\<not> truthy (get_slot_value slots ''DoctorName'')"
  shows "try_body flt db event =
           (fst (dialog_steps flt db intent slots src
                   (case confirmationState intent of None \<Rightarrow> [] | Some s \<Rightarrow> s)
                   (get_slot_value slots ''DoctorName'')),
            snd (dialog_steps flt db intent slots src
                   (case confirmationState intent of None \<Rightarrow> [] | Some s \<Rightarrow> s)
                   (get_slot_value slots ''DoctorName'')),
            event)"
  using assms by (simp add: try_body_def Let_def split_beta)

section \<open>An unknown doctor\<close>

text \<open>
  C10. When the supplied \<open>DoctorName\<close> matches none of the valid doctors without regard to
  case, the handler asks for \<open>DoctorName\<close> again and returns the event's intent as it
  came: every slot keeps its value, the invalid doctor name included, and the store is
  not touched. The match is that of line 63, \<open>d.lower() == doctor.lower()\<close>, for names of
  any characters: a name that spells \<open>Dr. David Park\<close> with the Kelvin sign is a match, and
  is no instance of this theorem.
\<close>

theorem invalid_doctor_keeps_slots:
  assumes "sessionState event = Some session" and "session_intent session = Some intent"
    and "intent_slots intent = Some slots" and "invocationSource event = Some src"
    and "get_slot_value slots ''DoctorName'' = Some d" and "d \<noteq> []"
    and "\<not> list_ex (\<lambda>v. lower v = lower d) VALID_DOCTORS"
  shows "lambda_handler flt db event = (elicit_slot ''DoctorName'' intent choose_doctor_msg, db)
         \<and> response_intent (fst (lambda_handler flt db event)) = event_intent event
         \<and> intent_slots (response_intent (fst (lambda_handler flt db event))) = Some slots"
  using try_body_invalid_doctor [OF assms, of flt db] assms
  by (simp add: lambda_handler_def elicit_slot_def event_intent_def)

theorem invalid_doctor_keeps_slots_witness:
  "lambda_handler no_faults example_store (lex_event unknown_doctor_slots ''DialogCodeHook'' ''None'')
     = (elicit_slot ''DoctorName'' (lex_intent unknown_doctor_slots ''None'') choose_doctor_msg,
        example_store)
   \<and> get_slot_value unknown_doctor_slots ''DoctorName'' = Some ''Dr. Who''"
  using invalid_doctor_keeps_slots
    [of "lex_event unknown_doctor_slots ''DialogCodeHook'' ''None''"
        "lex_session unknown_doctor_slots ''None''" "lex_intent unknown_doctor_slots ''None''"
        unknown_doctor_slots "''DialogCodeHook''" "''Dr. Who''" no_faults example_store]
  by (simp add: lex_event_def lex_session_def lex_intent_def unknown_doctor_slots_def filled_def
        get_slot_value_def VALID_DOCTORS_def lower.simps lower_char_def)

section \<open>The time normalisation is dead code\<close>

lemma step2_without_normalization_eq:
  "step2_without_normalization flt db intent doctor date time name phone
     = step2 flt db intent doctor date time name phone"
  unfolding step2_without_normalization_def step2_def Let_def ..

lemma dialog_steps_without_normalization_eq:
  "dialog_steps_without_normalization flt db intent slots src cs doctor
     = dialog_steps flt db intent slots src cs doctor"
  unfolding dialog_steps_without_normalization_def dialog_steps_def
    step2_without_normalization_eq ..

lemma try_body_without_normalization_eq:
  "try_body_without_normalization flt db event = try_body flt db event"
  unfolding try_body_without_normalization_def try_body_def
    dialog_steps_without_normalization_eq ..

text \<open>
  C9. The value \<open>normalized_time\<close> of lines 125-126 is computed and never read: for
  every fault environment, store and event the handler returns the same response and the
  same store as the handler without that computation.
\<close>

theorem normalized_time_unused:
  "lambda_handler flt db event = lambda_handler_without_normalization flt db event"
  unfolding lambda_handler_without_normalization_def lambda_handler_def
    try_body_without_normalization_eq ..

section \<open>A turn whose confirmation slot says yes or no\<close>

lemma get_available_times_scan_fault:
  "flt' Scan = flt Scan \<Longrightarrow> get_available_times flt' db doctor date = get_available_times flt db doctor date"
  by (simp add: get_available_times_def scan_def)

lemma lower_nonempty: "lower c = x # xs \<Longrightarrow> c \<noteq> []"
  by (auto simp: lower.simps)

lemma dialog_steps_confirmation_given:
  assumes "get_slot_value slots ''Confirmation'' = Some c"
    and "lower c = ''yes'' \<or> lower c = ''no''"
  shows "snd (dialog_steps flt db intent slots src cs doctor) = db"
proof -
  have "c \<noteq> []" using assms(2) by (auto dest: lower_nonempty)
  then have "step5 intent (Some c) \<noteq> None"
    using assms(2) by (auto simp: step5_def truthy_def str_of_def)
  then show ?thesis
    using assms(1) by (auto simp: dialog_steps_def Let_def split: option.splits)
qed

lemma dialog_steps_confirmation_given_faults:
  assumes "get_slot_value slots ''Confirmation'' = Some c"
    and "lower c = ''yes'' \<or> lower c = ''no''"
    and "flt' Scan = flt Scan"
  shows "dialog_steps flt' db intent slots src cs doctor = dialog_steps flt db intent slots src cs doctor"
proof -
  have "c \<noteq> []" using assms(2) by (auto dest: lower_nonempty)
  then have "step5 intent (Some c) \<noteq> None"
    using assms(2) by (auto simp: step5_def truthy_def str_of_def)
  moreover have "get_available_times flt' db x y = get_available_times flt db x y" for x y
    using assms(3) by (rule get_available_times_scan_fault)
  then have "step1 flt' db intent slots doctor d t = step1 flt db intent slots doctor d t"
    and "step2 flt' db intent doctor d t n p = step2 flt db intent doctor d t n p" for d t n p
    by (simp_all add: step1_def step2_def)
  ultimately show ?thesis
    using assms(1) by (auto simp: dialog_steps_def Let_def split: option.splits)
qed

lemma snd_lambda_handler: "snd (lambda_handler flt db event) = fst (snd (try_body flt db event))"
  by (cases "try_body flt db event" rule: prod_cases3) (auto simp: lambda_handler_def split: sum.splits)


lemma try_body_confirmation_given:
  assumes ev: "sessionState event = Some session" "session_intent session = Some intent"
      "intent_slots intent = Some slots"
    and conf: "get_slot_value slots ''Confirmation'' = Some c"
      "lower c = ''yes'' \<or> lower c = ''no''"
  shows "fst (snd (try_body flt db event)) = db"
    and "flt' Scan = flt Scan \<Longrightarrow> try_body flt' db event = try_body flt db event"
proof -
  let ?D = "get_slot_value slots ''DoctorName''"
  have both: "fst (snd (try_body flt db event)) = db
      \<and> (flt' Scan = flt Scan \<longrightarrow> try_body flt' db event = try_body flt db event)"
  proof (cases "invocationSource event")
    case None
    then show ?thesis using ev by (simp add: try_body_def)
  next
    case (Some src)
    show ?thesis
    proof (cases "truthy ?D")
      case False
      show ?thesis
        using try_body_no_doctor [OF ev Some False]
          dialog_steps_confirmation_given [OF conf]
          dialog_steps_confirmation_given_faults [OF conf, where flt' = flt' and flt = flt]
        by simp
    next
      case True
      then obtain d where d: "?D = Some d" "d \<noteq> []"
        by (auto simp: truthy_def split: option.splits)
      show ?thesis
      proof (cases "list_ex (\<lambda>v. lower v = lower d) VALID_DOCTORS")
        case False
        show ?thesis using try_body_invalid_doctor [OF ev Some d False] by simp
      next
        case True
        then obtain dn where dn: "find (\<lambda>v. lower v = lower d) VALID_DOCTORS = Some dn"
          by (auto dest: find_list_ex)
        obtain slots' where s': "set_interpretedValue slots ''DoctorName'' dn = Inr slots'"
          using set_interpretedValue_defined [OF d(1)] by auto
        have conf': "get_slot_value slots' ''Confirmation'' = Some c"
          using get_slot_value_set_other [OF s', of "''Confirmation''"] conf(1) by simp
        show ?thesis
          using try_body_valid_doctor [OF ev Some d dn s']
            dialog_steps_confirmation_given [OF conf' conf(2)]
            dialog_steps_confirmation_given_faults [OF conf' conf(2), where flt' = flt' and flt = flt]
          by simp
      qed
    qed
  qed
  show "fst (snd (try_body flt db event)) = db" using both by simp
  show "flt' Scan = flt Scan \<Longrightarrow> try_body flt' db event = try_body flt db event"
    using both by simp
qed

text \<open>
  C8. When the \<open>Confirmation\<close> slot of the event carries an interpreted value that
  lower-cases to \<open>yes\<close> or \<open>no\<close>, the handler never runs the booking of step 7,
  whatever the invocation source and the confirmation state: the store it returns is the
  store it was given (no slot changes status, no sequence number is issued, no
  appointment is written), and its result does not depend on whether the three store
  calls of the booking would fail.
\<close>

theorem confirmation_value_never_books:
  assumes "sessionState event = Some session" and "session_intent session = Some intent"
    and "intent_slots intent = Some slots"
    and "get_slot_value slots ''Confirmation'' = Some c"
    and "lower c = ''yes'' \<or> lower c = ''no''"
    and "flt' Scan = flt Scan"
  shows "snd (lambda_handler flt db event) = db
         \<and> lambda_handler flt' db event = lambda_handler flt db event"
proof -
  have "fst (snd (try_body flt db event)) = db"
    by (rule try_body_confirmation_given(1) [OF assms(1-5)])
  moreover have "try_body flt' db event = try_body flt db event"
    using assms(6) by (rule try_body_confirmation_given(2) [OF assms(1-5)])
  then have "lambda_handler flt' db event = lambda_handler flt db event"
    by (simp only: lambda_handler_def)
  ultimately show ?thesis
    by (simp add: snd_lambda_handler)
qed

section \<open>Facts about the example inputs\<close>

lemma set_interpretedValue_same:
  "get_slot_value slots k = Some v \<Longrightarrow> set_interpretedValue slots k v = Inr slots"
  by (auto simp: set_interpretedValue_def get_slot_value_def split: option.splits)

lemma lex_event_fields:
  "sessionState (lex_event s src cs) = Some (lex_session s cs)"
  "session_intent (lex_session s cs) = Some (lex_intent s cs)"
  "intent_slots (lex_intent s cs) = Some s"
  "invocationSource (lex_event s src cs) = Some src"
  "confirmationState (lex_intent s cs) = Some cs"
  "intent_name (lex_intent s cs) = Some ''BookAppointment''"
  "(lex_intent s cs)\<lparr>intent_slots := Some s'\<rparr> = lex_intent s' cs"
  "(lex_event s src cs)\<lparr>sessionState :=
      Some ((lex_session s cs)\<lparr>session_intent := Some (lex_intent s' cs)\<rparr>)\<rparr> = lex_event s' src cs"
  by (simp_all add: lex_event_def lex_session_def lex_intent_def)

lemma all_filled_values:
  "get_slot_value (all_filled t c) ''DoctorName'' = Some ''Dr. Sarah Jones''"
  "get_slot_value (all_filled t c) ''Date'' = Some ''2025-05-05''"
  "get_slot_value (all_filled t c) ''Time'' = Some t"
  "get_slot_value (all_filled t c) ''Name'' = Some ''Ann Lee''"
  "get_slot_value (all_filled t c) ''Phone'' = Some ''5550100''"
  "get_slot_value (all_filled t c) ''Confirmation'' = Some c"
  by (simp_all add: all_filled_def get_slot_value_def filled_def)

lemma find_sarah:
  "find (\<lambda>v. lower v = lower ''Dr. Sarah Jones'') VALID_DOCTORS = Some ''Dr. Sarah Jones''"
  by (simp add: VALID_DOCTORS_def)

lemma example_available:
  "get_available_times no_faults example_store ''Dr. Sarah Jones'' ''2025-05-05''
     = Inr [''09:00'', ''11:00'']"
  by (simp add: scan_def get_available_times_def no_faults_def example_store_def)

lemma lower_yes: "lower ''yes'' = ''yes''" "lower ''Yes'' = ''yes''" "lower ''no'' = ''no''"
  by (simp_all add: lower.simps lower_char_def)

lemma try_body_all_filled:
  "try_body flt db (lex_event (all_filled t c) src cs)
     = (fst (dialog_steps flt db (lex_intent (all_filled t c) cs) (all_filled t c) src cs
               (Some ''Dr. Sarah Jones'')),
        snd (dialog_steps flt db (lex_intent (all_filled t c) cs) (all_filled t c) src cs
               (Some ''Dr. Sarah Jones'')),
        lex_event (all_filled t c) src cs)"
  using try_body_valid_doctor
      [OF lex_event_fields(1) lex_event_fields(2) lex_event_fields(3) lex_event_fields(4)
          all_filled_values(1) _ find_sarah set_interpretedValue_same [OF all_filled_values(1)]]
  by (simp add: lex_event_fields)


lemma dialog_steps_yes:
  "dialog_steps no_faults example_store (lex_intent (all_filled ''09:00'' ''yes'') cs)
      (all_filled ''09:00'' ''yes'') src cs (Some ''Dr. Sarah Jones'')
     = (Inr (delegate (lex_intent (all_filled ''09:00'' ''yes'') cs)), example_store)"
  by (simp add: dialog_steps_def step1_def step2_def step4_def step5_def all_filled_values
        truthy_def str_of_def example_available lower_yes Let_def)

text \<open>
  C1. The fulfillment turn of the happy path: the doctor is valid, the date is given, the
  time \<open>09:00\<close> is in the availability list, name and phone are given, the
  \<open>Confirmation\<close> slot is \<open>yes\<close>, Lex reports \<open>Confirmed\<close> and invokes the handler for
  fulfillment. Step 5 returns \<open>Delegate\<close> before step 7 is reached: no appointment is
  created, the slot stays \<open>available\<close> and the response is not a \<open>Close\<close>.
\<close>

theorem confirmed_yes_is_delegated:
  "get_available_times no_faults example_store ''Dr. Sarah Jones'' ''2025-05-05''
     = Inr [''09:00'', ''11:00'']
   \<and> lambda_handler no_faults example_store
         (lex_event (all_filled ''09:00'' ''yes'') ''FulfillmentCodeHook'' ''Confirmed'')
       = (delegate (lex_intent (all_filled ''09:00'' ''yes'') ''Confirmed''), example_store)"
  by (simp add: lambda_handler_def try_body_all_filled dialog_steps_yes example_available)

theorem confirmation_value_never_books_witness:
  "snd (lambda_handler (no_faults(UpdateItem := Some BotoCoreError)) example_store
          (lex_event (all_filled ''09:00'' ''Yes'') ''FulfillmentCodeHook'' ''Confirmed''))
     = example_store
   \<and> lambda_handler no_faults example_store
         (lex_event (all_filled ''09:00'' ''Yes'') ''FulfillmentCodeHook'' ''Confirmed'')
     = lambda_handler (no_faults(UpdateItem := Some BotoCoreError)) example_store
         (lex_event (all_filled ''09:00'' ''Yes'') ''FulfillmentCodeHook'' ''Confirmed'')"
proof -
  have "lower ''Yes'' = ''yes'' \<or> lower ''Yes'' = ''no''"
    by (simp add: lower_yes)
  moreover have "no_faults Scan = (no_faults(UpdateItem := Some BotoCoreError)) Scan"
    by simp
  ultimately show ?thesis
    using confirmation_value_never_books
      [OF lex_event_fields(1) lex_event_fields(2) lex_event_fields(3) all_filled_values(6)]
    by blast
qed

section \<open>The sequence generator\<close>

lemma length_digits_pos: "0 < length (digits n)"
  by (subst digits.simps) simp

lemma length_digits_ge: "10 ^ k \<le> n \<Longrightarrow> k < length (digits n)"
proof (induction k arbitrary: n)
  case 0
  show ?case by (rule length_digits_pos)
next
  case (Suc k)
  then have "10 ^ k \<le> n div 10" by simp
  then have "k < length (digits (n div 10))" by (rule Suc.IH)
  moreover have "\<not> n < 10"
  proof -
    have "(10::nat) \<le> 10 ^ Suc k" by simp
    also have "\<dots> \<le> n" by (rule Suc.prems)
    finally show ?thesis by simp
  qed
  ultimately show ?case by (subst digits.simps) simp
qed

lemma drop_digits:
  "k \<le> length (digits n) \<Longrightarrow> drop (length (digits n) - k) (digits n) = low_digits k n"
proof (induction k arbitrary: n)
  case 0
  then show ?case by simp
next
  case (Suc k)
  show ?case
  proof (cases "n < 10")
    case True
    then have d: "digits n = [digit_char n]" by (subst digits.simps) simp
    with Suc.prems have "k = 0" by simp
    with d True show ?thesis by simp
  next
    case False
    then have d: "digits n = digits (n div 10) @ [digit_char (n mod 10)]"
      by (subst digits.simps) simp
    with Suc.prems have le: "k \<le> length (digits (n div 10))" by simp
    have "drop (length (digits n) - Suc k) (digits n)
            = drop (length (digits (n div 10)) - k) (digits (n div 10)) @ [digit_char (n mod 10)]"
      using le by (simp add: d)
    also have "\<dots> = low_digits k (n div 10) @ [digit_char (n mod 10)]"
      using Suc.IH [OF le] by simp
    finally show ?thesis by simp
  qed
qed

lemma low_digits_mod: "low_digits k (n mod 10 ^ k) = low_digits k n"
proof (induction k arbitrary: n)
  case 0
  show ?case by simp
next
  case (Suc k)
  have "n mod 10 ^ Suc k div 10 = n div 10 mod 10 ^ k"
    by (simp add: mod_mult2_eq)
  moreover have "n mod 10 ^ Suc k mod 10 = n mod 10"
    by (simp add: mod_mod_cancel)
  ultimately show ?case using Suc.IH [of "n div 10"] by simp
qed

lemma last7_str:
  assumes "1000000 \<le> i"
  shows "last7 (str i) = low_digits 7 (nat i mod 10 ^ 7)"
proof -
  have "10 ^ 6 \<le> nat i" using assms by simp
  then have "6 < length (digits (nat i))" by (rule length_digits_ge)
  then have "last7 (digits (nat i)) = low_digits 7 (nat i)"
    unfolding last7_def by (intro drop_digits) simp
  then show ?thesis using assms low_digits_mod [of 7 "nat i"] by (simp add: str_def)
qed

text \<open>
  C4. When the counter record is absent, \<open>get_next_sequence\<close> starts from 1,000,000,
  stores 1,000,001 and returns \<open>1000001\<close>. When the counter holds \<open>v\<close>, it stores
  \<open>v + 1\<close> and returns \<open>str(v + 1)[-7:]\<close>, which from 1,000,000 on is the decimal
  number made of the last seven digits of \<open>v + 1\<close>.
\<close>

theorem get_next_sequence_counts:
  "(id_counter_table db ''appointment_id'' = None \<longrightarrow>
      get_next_sequence no_faults db
        = Inr (''1000001'',
               db\<lparr>id_counter_table := (id_counter_table db)(''appointment_id'' \<mapsto> 1000000 + 1)\<rparr>))
   \<and> (id_counter_table db ''appointment_id'' = Some v \<longrightarrow>
        get_next_sequence no_faults db
          = Inr (last7 (str (v + 1)),
                 db\<lparr>id_counter_table := (id_counter_table db)(''appointment_id'' \<mapsto> v + 1)\<rparr>))
   \<and> (1000000 \<le> v + 1 \<longrightarrow> last7 (str (v + 1)) = low_digits 7 (nat (v + 1) mod 10 ^ 7))"
proof -
  have "last7 (str 1000001) = ''1000001''"
    by (simp add: last7_def str_def digits.simps digit_char_def)
  then show ?thesis
    by (simp add: get_next_sequence_def no_faults_def last7_str Let_def)
qed

theorem get_next_sequence_counts_witness:
  "get_next_sequence no_faults (counter_store None) = Inr (''1000001'', counter_store (Some 1000001))
   \<and> get_next_sequence no_faults (counter_store (Some 1000001))
       = Inr (''1000002'', counter_store (Some 1000002))
   \<and> get_next_sequence no_faults (counter_store (Some 12345678))
       = Inr (''2345679'', counter_store (Some 12345679))
   \<and> low_digits 7 (nat 12345679 mod 10 ^ 7) = ''2345679''"
proof -
  have upd: "(counter_store a)\<lparr>id_counter_table :=
               (id_counter_table (counter_store a))(''appointment_id'' \<mapsto> b)\<rparr>
             = counter_store (Some b)" for a b
    by (auto simp: counter_store_def)
  have l: "last7 (str 1000002) = ''1000002''" "last7 (str 12345679) = ''2345679''"
    by (simp_all add: last7_def str_def digits.simps digit_char_def)
  have ld: "low_digits 7 (nat 12345679 mod 10 ^ 7) = ''2345679''"
    using get_next_sequence_counts [of "counter_store (Some 12345678)" 12345678] l
    by simp
  show ?thesis
    using get_next_sequence_counts [of "counter_store None" 0]
      get_next_sequence_counts [of "counter_store (Some 1000001)" 1000001]
      get_next_sequence_counts [of "counter_store (Some 12345678)" 12345678] l ld
    by (simp add: upd) (simp add: counter_store_def)
qed

section \<open>The time check\<close>

lemma step7_closes:
  "fst (step7 flt db intent doctor date time name phone) = Inr r
     \<Longrightarrow> action_type (dialogAction r) = ''Close'' \<and> slotToElicit (dialogAction r) = None"
  by (auto simp: step7_def booking_failed_def confirmed_def close_def Let_def
      split: sum.splits option.splits if_splits prod.splits)

lemma restart_elicits_doctor:
  "restart intent msg = Inr r \<Longrightarrow> slotToElicit (dialogAction r) = Some ''DoctorName''"
  by (auto simp: restart_def elicit_slot_def split: option.splits)

lemma dialog_steps_time_rejected:
  assumes "truthy doctor" and "get_slot_value slots ''Date'' = Some date" and "date \<noteq> []"
    and "get_slot_value slots ''Time'' = Some time" and "time \<noteq> []"
    and "get_available_times flt db (str_of doctor) date = Inr av"
    and "time \<notin> set av"
  shows "dialog_steps flt db intent slots src cs doctor =
           (Inr (elicit_slot ''Time'' intent
                   (''Sorry, '' @ time @ '' is not available. '' @ fmt doctor
                      @ '' is available on '' @ date @ '' at: '' @ join '', '' av
                      @ ''. Please choose one of these times.'')), db)"
  using assms
  by (simp add: dialog_steps_def step1_def step2_def truthy_def str_of_def fmt_def Let_def)

lemma dialog_steps_time_accepted:
  assumes "truthy doctor" and "get_slot_value slots ''Date'' = Some date" and "date \<noteq> []"
    and "get_slot_value slots ''Time'' = Some time" and "time \<noteq> []"
    and "get_available_times flt db (str_of doctor) date = Inr av"
    and "time \<in> set av"
    and "fst (dialog_steps flt db intent slots src cs doctor) = Inr r"
  shows "slotToElicit (dialogAction r) \<noteq> Some ''Time''"
proof -
  let ?name = "get_slot_value slots ''Name''" and ?phone = "get_slot_value slots ''Phone''"
  let ?conf = "get_slot_value slots ''Confirmation''"
  have s1: "step1 flt db intent slots doctor (Some date) (Some time) = None"
    using assms(5) by (simp add: step1_def truthy_def)
  have s2: "step2 flt db intent doctor (Some date) (Some time) ?name ?phone =
              (if \<not> truthy ?name then Some (Inr (elicit_slot ''Name'' intent ''May I know your name?''))
               else if \<not> truthy ?phone then
                 Some (Inr (elicit_slot ''Phone'' intent ''Could you please provide your phone number?''))
               else None)"
    using assms(1,3,5,6,7) by (simp add: step2_def truthy_def str_of_def Let_def)
  have s7: "fst (step7 flt db intent doctor (Some date) (Some time) ?name ?phone) = Inr r
              \<Longrightarrow> slotToElicit (dialogAction r) \<noteq> Some ''Time''"
    using step7_closes [of flt db intent doctor "Some date" "Some time" ?name ?phone r] by simp
  show ?thesis
    using assms(8) s7
    by (auto simp: dialog_steps_def assms(2,4) s1 s2 Let_def step4_def step5_def step6_def
          elicit_slot_def delegate_def
        dest!: restart_elicits_doctor split: if_splits option.splits)
qed


lemma lambda_handler_returns:
  "try_body flt db event = (Inr r, db', event') \<Longrightarrow> lambda_handler flt db event = (r, db')"
  by (simp add: lambda_handler_def)

lemma lambda_handler_raises:
  "try_body flt db event = (Inl e, db', event')
     \<Longrightarrow> lambda_handler flt db event = (close (event_intent event') apology_msg, db')"
  by (simp add: lambda_handler_def)

text \<open>
  C6. On a turn where the doctor (valid), the date and the time are all known, the
  availability list is computed again, and the supplied time is accepted exactly when it
  is equal, as a string, to one of the labels of that list. When it is not, the handler
  asks for \<open>Time\<close> again, its message lists the current availability, and the supplied
  time is left in its slot as it came; when it is, the handler does not ask for \<open>Time\<close>.
\<close>

theorem time_accepted_iff_listed:
  assumes ev: "sessionState event = Some session" "session_intent session = Some intent"
      "intent_slots intent = Some slots" "invocationSource event = Some src"
    and doc: "get_slot_value slots ''DoctorName'' = Some d" "d \<noteq> []"
      "find (\<lambda>v. lower v = lower d) VALID_DOCTORS = Some dn"
      "set_interpretedValue slots ''DoctorName'' dn = Inr slots'"
    and date: "get_slot_value slots ''Date'' = Some date" "date \<noteq> []"
    and time: "get_slot_value slots ''Time'' = Some time" "time \<noteq> []"
    and av: "get_available_times flt db dn date = Inr av"
  shows "(time \<notin> set av \<longrightarrow>
            lambda_handler flt db event =
              (elicit_slot ''Time'' (intent\<lparr>intent_slots := Some slots'\<rparr>)
                 (''Sorry, '' @ time @ '' is not available. '' @ dn @ '' is available on '' @ date
                    @ '' at: '' @ join '', '' av @ ''. Please choose one of these times.''), db)
            \<and> get_slot_value slots' ''Time'' = Some time)
         \<and> (time \<in> set av \<longrightarrow>
              slotToElicit (dialogAction (fst (lambda_handler flt db event))) \<noteq> Some ''Time'')"
proof -
  let ?cs = "case confirmationState intent of None \<Rightarrow> [] | Some s \<Rightarrow> s"
  let ?ds = "dialog_steps flt db (intent\<lparr>intent_slots := Some slots'\<rparr>) slots' src ?cs (Some dn)"
  note tb = try_body_valid_doctor [OF ev doc, of flt db]
  have dn: "truthy (Some dn)" using doc(3) by (rule valid_doctor_truthy)
  have date': "get_slot_value slots' ''Date'' = Some date"
    using get_slot_value_set_other [OF doc(4), of "''Date''"] date(1) by simp
  have time': "get_slot_value slots' ''Time'' = Some time"
    using get_slot_value_set_other [OF doc(4), of "''Time''"] time(1) by simp
  have av': "get_available_times flt db (str_of (Some dn)) date = Inr av"
    using av by (simp add: str_of_def)
  have rejected: "lambda_handler flt db event =
      (elicit_slot ''Time'' (intent\<lparr>intent_slots := Some slots'\<rparr>)
         (''Sorry, '' @ time @ '' is not available. '' @ dn @ '' is available on '' @ date
            @ '' at: '' @ join '', '' av @ ''. Please choose one of these times.''), db)"
    if "time \<notin> set av"
    using tb dialog_steps_time_rejected [OF dn date' date(2) time' time(2) av' that,
        of "intent\<lparr>intent_slots := Some slots'\<rparr>" src ?cs]
    by (simp add: lambda_handler_def fmt_def)
  have accepted: "slotToElicit (dialogAction (fst (lambda_handler flt db event))) \<noteq> Some ''Time''"
    if "time \<in> set av"
  proof (cases "fst ?ds")
    case (Inl e)
    then show ?thesis using tb by (simp add: lambda_handler_def close_def)
  next
    case (Inr r)
    then have "slotToElicit (dialogAction r) \<noteq> Some ''Time''"
      by (rule dialog_steps_time_accepted [OF dn date' date(2) time' time(2) av' that])
    then show ?thesis using tb Inr by (simp add: lambda_handler_def)
  qed
  show ?thesis using rejected accepted time' by blast
qed

theorem time_accepted_iff_listed_witness:
  "lambda_handler no_faults example_store
       (lex_event (all_filled ''9:00'' ''yes'') ''DialogCodeHook'' ''None'')
     = (elicit_slot ''Time'' (lex_intent (all_filled ''9:00'' ''yes'') ''None'')
          ''Sorry, 9:00 is not available. Dr. Sarah Jones is available on 2025-05-05 at: 09:00, 11:00. Please choose one of these times.'',
        example_store)
   \<and> get_slot_value (all_filled ''9:00'' ''yes'') ''Time'' = Some ''9:00''
   \<and> slotToElicit (dialogAction (fst (lambda_handler no_faults example_store
          (lex_event (all_filled ''09:00'' ''yes'') ''DialogCodeHook'' ''None''))))
       \<noteq> Some ''Time''"
  using time_accepted_iff_listed
      [where event = "lex_event (all_filled ''9:00'' ''yes'') ''DialogCodeHook'' ''None''"
         and session = "lex_session (all_filled ''9:00'' ''yes'') ''None''"
         and intent = "lex_intent (all_filled ''9:00'' ''yes'') ''None''"
         and slots = "all_filled ''9:00'' ''yes''" and src = "''DialogCodeHook''"
         and d = "''Dr. Sarah Jones''" and dn = "''Dr. Sarah Jones''"
         and slots' = "all_filled ''9:00'' ''yes''" and date = "''2025-05-05''"
         and time = "''9:00''" and flt = no_faults and db = example_store
         and av = "[''09:00'', ''11:00'']"]
    time_accepted_iff_listed
      [where event = "lex_event (all_filled ''09:00'' ''yes'') ''DialogCodeHook'' ''None''"
         and session = "lex_session (all_filled ''09:00'' ''yes'') ''None''"
         and intent = "lex_intent (all_filled ''09:00'' ''yes'') ''None''"
         and slots = "all_filled ''09:00'' ''yes''" and src = "''DialogCodeHook''"
         and d = "''Dr. Sarah Jones''" and dn = "''Dr. Sarah Jones''"
         and slots' = "all_filled ''09:00'' ''yes''" and date = "''2025-05-05''"
         and time = "''09:00''" and flt = no_faults and db = example_store
         and av = "[''09:00'', ''11:00'']"]
  by (simp add: lex_event_fields all_filled_values find_sarah set_interpretedValue_same
        example_available)

section \<open>Starting over\<close>

lemma dialog_steps_restart:
  assumes "date = get_slot_value slots ''Date''" and "time = get_slot_value slots ''Time''"
    and "name = get_slot_value slots ''Name''" and "phone = get_slot_value slots ''Phone''"
    and "conf = get_slot_value slots ''Confirmation''"
    and passed: "\<not> truthy doctor \<or> \<not> truthy date
        \<or> (truthy time \<and> truthy name \<and> truthy phone
            \<and> get_available_times flt db (str_of doctor) (str_of date) = Inr av
            \<and> str_of time \<in> set av)"
    and named: "intent_name intent = Some n"
    and neg: "(truthy conf \<and> lower (str_of conf) = ''no'')
        \<or> (cs = ''Denied'' \<and> lower (str_of conf) \<noteq> ''yes''
            \<and> (truthy conf \<or> \<not> truthy doctor \<or> \<not> truthy date))"
  shows "dialog_steps flt db intent slots src cs doctor =
           (Inr (elicit_slot ''DoctorName'' (reset_intent n)
                   (if truthy conf \<and> lower (str_of conf) = ''no'' then start_over_msg
                    else canceled_msg)), db)"
proof -
  have s1: "step1 flt db intent slots doctor date time = None"
    using passed by (auto simp: step1_def)
  have s2: "step2 flt db intent doctor date time name phone = None"
    using passed by (auto simp: step2_def Let_def)
  have s4: "step4 intent doctor date time name phone conf = None"
    using neg by (auto simp: step4_def)
  have s5: "step5 intent conf =
      (if truthy conf \<and> lower (str_of conf) = ''no''
       then Some (Inr (elicit_slot ''DoctorName'' (reset_intent n) start_over_msg)) else None)"
    using neg named by (auto simp: step5_def restart_def)
  have s6: "\<not> (truthy conf \<and> lower (str_of conf) = ''no'')
      \<Longrightarrow> step6 intent cs = Some (Inr (elicit_slot ''DoctorName'' (reset_intent n) canceled_msg))"
    using neg named by (auto simp: step6_def restart_def)
  show ?thesis
    using s6
    by (simp add: dialog_steps_def Let_def assms(1-5) [symmetric] s1 s2 s4 s5)
qed


text \<open>
  C5, as the code has it. The restart is the rule of steps 5 and 6, and the rules of
  steps 1 to 4 come first. On a turn that those rules let through (the doctor is unset
  or valid; and doctor or date is unknown, or the time is in the availability list and
  name and phone are known), whose intent has a name: when \<open>Confirmation\<close> lower-cases
  to \<open>no\<close>, or when Lex reports \<open>Denied\<close> and \<open>Confirmation\<close> holds a value other than
  yes or is unset with doctor or date unknown, the handler sets all six slots to
  \<open>None\<close>, keeps the intent's name and asks for \<open>DoctorName\<close> with a restart prompt.
\<close>

theorem negation_restarts:
  assumes ev: "sessionState event = Some session" "session_intent session = Some intent"
      "intent_slots intent = Some slots" "invocationSource event = Some src"
    and named: "intent_name intent = Some n"
    and doc: "doctor = (if truthy (get_slot_value slots ''DoctorName'')
                        then find (\<lambda>v. lower v = lower (str_of (get_slot_value slots ''DoctorName'')))
                               VALID_DOCTORS
                        else get_slot_value slots ''DoctorName'')"
      "truthy (get_slot_value slots ''DoctorName'') \<longrightarrow> doctor \<noteq> None"
    and vals: "date = get_slot_value slots ''Date''" "time = get_slot_value slots ''Time''"
      "name = get_slot_value slots ''Name''" "phone = get_slot_value slots ''Phone''"
      "conf = get_slot_value slots ''Confirmation''"
    and passed: "\<not> truthy doctor \<or> \<not> truthy date
        \<or> (truthy time \<and> truthy name \<and> truthy phone
            \<and> get_available_times flt db (str_of doctor) (str_of date) = Inr av
            \<and> str_of time \<in> set av)"
    and neg: "(truthy conf \<and> lower (str_of conf) = ''no'')
        \<or> (confirmationState intent = Some ''Denied'' \<and> lower (str_of conf) \<noteq> ''yes''
            \<and> (truthy conf \<or> \<not> truthy doctor \<or> \<not> truthy date))"
  shows "lambda_handler flt db event =
           (elicit_slot ''DoctorName'' (reset_intent n)
              (if truthy conf \<and> lower (str_of conf) = ''no'' then start_over_msg
               else canceled_msg), db)
         \<and> intent_name (reset_intent n) = Some n
         \<and> intent_slots (reset_intent n) = Some reset_slots
         \<and> list_all (\<lambda>k. reset_slots k = Some None)
              [''DoctorName'', ''Date'', ''Time'', ''Name'', ''Phone'', ''Confirmation'']"
proof -
  let ?D = "get_slot_value slots ''DoctorName''"
  let ?cs = "case confirmationState intent of None \<Rightarrow> [] | Some s \<Rightarrow> s"
  let ?r = "Inr (elicit_slot ''DoctorName'' (reset_intent n)
                   (if truthy conf \<and> lower (str_of conf) = ''no'' then start_over_msg
                    else canceled_msg))"
  have neg': "(truthy conf \<and> lower (str_of conf) = ''no'')
        \<or> (?cs = ''Denied'' \<and> lower (str_of conf) \<noteq> ''yes''
            \<and> (truthy conf \<or> \<not> truthy doctor \<or> \<not> truthy date))"
    using neg by auto
  have "try_body flt db event = (?r, db, event)
        \<or> (\<exists>event'. try_body flt db event = (?r, db, event'))"
  proof (cases "truthy ?D")
    case False
    then have "doctor = ?D" using doc(1) by simp
    then have "dialog_steps flt db intent slots src ?cs ?D = (?r, db)"
      using dialog_steps_restart [OF vals passed named neg', where src = src] by simp
    then show ?thesis using try_body_no_doctor [OF ev False, of flt db] by simp
  next
    case True
    then obtain d where d: "?D = Some d" "d \<noteq> []"
      by (auto simp: truthy_def split: option.splits)
    obtain dn where dn: "find (\<lambda>v. lower v = lower d) VALID_DOCTORS = Some dn"
      using doc True d by (auto simp: str_of_def)
    then have doctor: "doctor = Some dn" using doc(1) True d by (simp add: str_of_def)
    obtain slots' where s': "set_interpretedValue slots ''DoctorName'' dn = Inr slots'"
      using set_interpretedValue_defined [OF d(1)] by auto
    have vals': "date = get_slot_value slots' ''Date''" "time = get_slot_value slots' ''Time''"
      "name = get_slot_value slots' ''Name''" "phone = get_slot_value slots' ''Phone''"
      "conf = get_slot_value slots' ''Confirmation''"
      using vals get_slot_value_set_other [OF s'] by simp_all
    have named': "intent_name (intent\<lparr>intent_slots := Some slots'\<rparr>) = Some n"
      using named by simp
    have "dialog_steps flt db (intent\<lparr>intent_slots := Some slots'\<rparr>) slots' src ?cs (Some dn)
            = (?r, db)"
      using dialog_steps_restart [OF vals' passed named' neg', where src = src] doctor by simp
    then show ?thesis using try_body_valid_doctor [OF ev d dn s', of flt db] by simp
  qed
  then have "lambda_handler flt db event =
           (elicit_slot ''DoctorName'' (reset_intent n)
              (if truthy conf \<and> lower (str_of conf) = ''no'' then start_over_msg
               else canceled_msg), db)"
    by (auto dest: lambda_handler_returns)
  then show ?thesis by (simp add: reset_intent_def reset_slots_def)
qed

lemma no_time_values:
  "get_slot_value (no_time_slots c) ''DoctorName'' = Some ''Dr. Sarah Jones''"
  "get_slot_value (no_time_slots c) ''Date'' = Some ''2025-05-05''"
  "get_slot_value (no_time_slots c) ''Time'' = None"
  "get_slot_value (no_time_slots c) ''Name'' = None"
  "get_slot_value (no_time_slots c) ''Phone'' = None"
  "get_slot_value (no_time_slots c) ''Confirmation'' = Some c"
  by (simp_all add: no_time_slots_def get_slot_value_def filled_def)

lemma doctor_only_values:
  "get_slot_value doctor_only_slots ''DoctorName'' = Some ''Dr. Sarah Jones''"
  "get_slot_value doctor_only_slots ''Date'' = None"
  "get_slot_value doctor_only_slots ''Time'' = None"
  "get_slot_value doctor_only_slots ''Name'' = None"
  "get_slot_value doctor_only_slots ''Phone'' = None"
  "get_slot_value doctor_only_slots ''Confirmation'' = None"
  by (simp_all add: doctor_only_slots_def get_slot_value_def filled_def)

lemma try_body_no_time:
  "try_body flt db (lex_event (no_time_slots c) src cs)
     = (fst (dialog_steps flt db (lex_intent (no_time_slots c) cs) (no_time_slots c) src cs
               (Some ''Dr. Sarah Jones'')),
        snd (dialog_steps flt db (lex_intent (no_time_slots c) cs) (no_time_slots c) src cs
               (Some ''Dr. Sarah Jones'')),
        lex_event (no_time_slots c) src cs)"
  using try_body_valid_doctor
      [OF lex_event_fields(1) lex_event_fields(2) lex_event_fields(3) lex_event_fields(4)
          no_time_values(1) _ find_sarah set_interpretedValue_same [OF no_time_values(1)]]
  by (simp add: lex_event_fields)

text \<open>
  C5 as stated fails: with doctor and date known, the time unknown and \<open>Confirmation\<close>
  equal to \<open>no\<close>, step 1 answers first. The handler asks for \<open>Time\<close> and resets nothing.
\<close>

theorem negation_with_time_missing_asks_time:
  "get_slot_value (no_time_slots ''no'') ''Confirmation'' = Some ''no''
   \<and> lambda_handler no_faults example_store
         (lex_event (no_time_slots ''no'') ''DialogCodeHook'' ''None'')
       = (elicit_slot ''Time'' (lex_intent (no_time_slots ''no'') ''None'')
            ''Dr. Sarah Jones is available on 2025-05-05 at: 09:00, 11:00. Please choose a time.'',
          example_store)
   \<and> get_slot_value (no_time_slots ''no'') ''DoctorName'' = Some ''Dr. Sarah Jones''
   \<and> get_slot_value (no_time_slots ''no'') ''Date'' = Some ''2025-05-05''"
proof -
  have "dialog_steps no_faults example_store (lex_intent (no_time_slots ''no'') ''None'')
          (no_time_slots ''no'') ''DialogCodeHook'' ''None'' (Some ''Dr. Sarah Jones'')
        = (Inr (elicit_slot ''Time'' (lex_intent (no_time_slots ''no'') ''None'')
            ''Dr. Sarah Jones is available on 2025-05-05 at: 09:00, 11:00. Please choose a time.''),
           example_store)"
    by (simp add: dialog_steps_def step1_def no_time_values truthy_def str_of_def fmt_def
          example_available Let_def)
  then show ?thesis
    by (simp add: lambda_handler_def try_body_no_time no_time_values)
qed

theorem negation_restarts_witness:
  "lambda_handler no_faults example_store
       (lex_event (all_filled ''09:00'' ''No'') ''DialogCodeHook'' ''None'')
     = (elicit_slot ''DoctorName'' (reset_intent ''BookAppointment'') start_over_msg, example_store)
   \<and> lambda_handler no_faults example_store
         (lex_event doctor_only_slots ''DialogCodeHook'' ''Denied'')
     = (elicit_slot ''DoctorName'' (reset_intent ''BookAppointment'') canceled_msg, example_store)
   \<and> get_slot_value reset_slots ''DoctorName'' = None"
proof -
  have no: "lower ''No'' = ''no''" by (simp add: lower.simps lower_char_def)
  have "lambda_handler no_faults example_store
          (lex_event (all_filled ''09:00'' ''No'') ''DialogCodeHook'' ''None'')
        = (elicit_slot ''DoctorName'' (reset_intent ''BookAppointment'')
             (if truthy (Some ''No'') \<and> lower (str_of (Some ''No'')) = ''no''
              then start_over_msg else canceled_msg), example_store)"
    by (rule negation_restarts
      [where session = "lex_session (all_filled ''09:00'' ''No'') ''None''"
         and intent = "lex_intent (all_filled ''09:00'' ''No'') ''None''"
         and slots = "all_filled ''09:00'' ''No''" and src = "''DialogCodeHook''"
         and doctor = "Some ''Dr. Sarah Jones''"
         and date = "Some ''2025-05-05''" and time = "Some ''09:00''"
         and name = "Some ''Ann Lee''" and phone = "Some ''5550100''"
         and av = "[''09:00'', ''11:00'']", THEN conjunct1])
      (simp_all add: lex_event_fields all_filled_values find_sarah example_available
         truthy_def str_of_def no)
  moreover have "lambda_handler no_faults example_store
          (lex_event doctor_only_slots ''DialogCodeHook'' ''Denied'')
        = (elicit_slot ''DoctorName'' (reset_intent ''BookAppointment'')
             (if truthy None \<and> lower (str_of None) = ''no''
              then start_over_msg else canceled_msg), example_store)"
    by (rule negation_restarts
      [where session = "lex_session doctor_only_slots ''Denied''"
         and intent = "lex_intent doctor_only_slots ''Denied''"
         and slots = doctor_only_slots and src = "''DialogCodeHook''"
         and doctor = "Some ''Dr. Sarah Jones''"
         and date = None and time = None and name = None and phone = None
         and av = "[]", THEN conjunct1])
      (simp_all add: lex_event_fields doctor_only_values find_sarah
         truthy_def str_of_def lower.simps(4))
  ultimately show ?thesis
    by (simp add: truthy_def str_of_def no get_slot_value_def reset_slots_def)
qed

section \<open>The outer exception handler\<close>

lemma try_body_event:
  assumes "try_body flt db event = (r, db', event')"
  shows "event' = event
     \<or> (\<exists>session intent slots d dn slots'.
           sessionState event = Some session \<and> session_intent session = Some intent
           \<and> intent_slots intent = Some slots
           \<and> get_slot_value slots ''DoctorName'' = Some d
           \<and> find (\<lambda>v. lower v = lower d) VALID_DOCTORS = Some dn
           \<and> set_interpretedValue slots ''DoctorName'' dn = Inr slots'
           \<and> event' = event\<lparr>sessionState :=
                 Some (session\<lparr>session_intent := Some (intent\<lparr>intent_slots := Some slots'\<rparr>)\<rparr>)\<rparr>)"
proof (cases "sessionState event")
  case None
  then show ?thesis using assms by (simp add: try_body_def)
next
  case (Some session)
  note s = this
  show ?thesis
  proof (cases "session_intent session")
    case None
    then show ?thesis using assms s by (simp add: try_body_def)
  next
    case (Some intent)
    note i = this
    show ?thesis
    proof (cases "intent_slots intent")
      case None
      then show ?thesis using assms s i by (simp add: try_body_def)
    next
      case (Some slots)
      note sl = this
      show ?thesis
      proof (cases "invocationSource event")
        case None
        then show ?thesis using assms s i sl by (simp add: try_body_def)
      next
        case (Some src)
        note ev = s i sl Some
        let ?D = "get_slot_value slots ''DoctorName''"
        show ?thesis
        proof (cases "truthy ?D")
          case False
          show ?thesis using try_body_no_doctor [OF ev False, of flt db] assms by simp
        next
          case True
          then obtain d where d: "?D = Some d" "d \<noteq> []"
            by (auto simp: truthy_def split: option.splits)
          show ?thesis
          proof (cases "list_ex (\<lambda>v. lower v = lower d) VALID_DOCTORS")
            case False
            show ?thesis using try_body_invalid_doctor [OF ev d False, of flt db] assms by simp
          next
            case True
            then obtain dn where dn: "find (\<lambda>v. lower v = lower d) VALID_DOCTORS = Some dn"
              by (auto dest: find_list_ex)
            obtain slots' where s': "set_interpretedValue slots ''DoctorName'' dn = Inr slots'"
              using set_interpretedValue_defined [OF d(1)] by auto
            have "event' = event\<lparr>sessionState :=
                 Some (session\<lparr>session_intent := Some (intent\<lparr>intent_slots := Some slots'\<rparr>)\<rparr>)\<rparr>"
              using try_body_valid_doctor [OF ev d dn s', of flt db] assms by simp
            then show ?thesis using ev d dn s' by blast
          qed
        qed
      qed
    qed
  qed
qed

text \<open>
  C7, as the code has it. Every exception that leaves the body of the outer \<open>try\<close> is
  answered with a \<open>Close\<close> response carrying the generic apology and the intent the
  event holds at that moment. That intent is the event's own, except that a
  \<open>DoctorName\<close> which matched a valid doctor has its interpreted value in canonical
  case (line 79 wrote it into the event); every other slot value is as it came.
\<close>

theorem outer_except_passes_event_intent:
  assumes "try_body flt db event = (Inl e, db', event')"
  shows "lambda_handler flt db event = (close (event_intent event') apology_msg, db')
     \<and> (event_intent event' = event_intent event
        \<or> (\<exists>slots d dn slots'.
              intent_slots (event_intent event) = Some slots
              \<and> get_slot_value slots ''DoctorName'' = Some d
              \<and> dn \<in> set VALID_DOCTORS \<and> lower dn = lower d
              \<and> set_interpretedValue slots ''DoctorName'' dn = Inr slots'
              \<and> get_slot_value slots' ''DoctorName'' = Some dn
              \<and> (\<forall>k. k = ''DoctorName'' \<or> get_slot_value slots' k = get_slot_value slots k)
              \<and> event_intent event' = (event_intent event)\<lparr>intent_slots := Some slots'\<rparr>))"
proof -
  have h: "lambda_handler flt db event = (close (event_intent event') apology_msg, db')"
    using assms by (rule lambda_handler_raises)
  from try_body_event [OF assms] show ?thesis
  proof
    assume "event' = event"
    then show ?thesis using h by simp
  next
    assume "\<exists>session intent slots d dn slots'.
           sessionState event = Some session \<and> session_intent session = Some intent
           \<and> intent_slots intent = Some slots
           \<and> get_slot_value slots ''DoctorName'' = Some d
           \<and> find (\<lambda>v. lower v = lower d) VALID_DOCTORS = Some dn
           \<and> set_interpretedValue slots ''DoctorName'' dn = Inr slots'
           \<and> event' = event\<lparr>sessionState :=
                 Some (session\<lparr>session_intent := Some (intent\<lparr>intent_slots := Some slots'\<rparr>)\<rparr>)\<rparr>"
    then obtain session intent slots d dn slots' where
      ev: "sessionState event = Some session" "session_intent session = Some intent"
        "intent_slots intent = Some slots"
      and d: "get_slot_value slots ''DoctorName'' = Some d"
      and dn: "find (\<lambda>v. lower v = lower d) VALID_DOCTORS = Some dn"
      and s': "set_interpretedValue slots ''DoctorName'' dn = Inr slots'"
      and e': "event' = event\<lparr>sessionState :=
                 Some (session\<lparr>session_intent := Some (intent\<lparr>intent_slots := Some slots'\<rparr>)\<rparr>)\<rparr>"
      by blast
    have 1: "event_intent event = intent" using ev by (simp add: event_intent_def)
    have 2: "event_intent event' = intent\<lparr>intent_slots := Some slots'\<rparr>"
      using e' by (simp add: event_intent_def)
    have 3: "dn \<in> set VALID_DOCTORS \<and> lower dn = lower d" using find_holds [OF dn] by simp
    have 4: "get_slot_value slots' ''DoctorName'' = Some dn"
      using s' by (rule get_slot_value_set_same)
    have 5: "\<forall>k. k = ''DoctorName'' \<or> get_slot_value slots' k = get_slot_value slots k"
      using get_slot_value_set_other [OF s'] by blast
    show ?thesis using h 1 2 3 4 5 ev(3) d s' by blast
  qed
qed

lemma lowercase_doctor_values:
  "get_slot_value lowercase_doctor_slots ''DoctorName'' = Some ''dr. sarah jones''"
  "get_slot_value lowercase_doctor_slots ''Date'' = Some ''2025-05-05''"
  "get_slot_value lowercase_doctor_slots ''Time'' = None"
  "get_slot_value canonical_doctor_slots ''DoctorName'' = Some ''Dr. Sarah Jones''"
  "get_slot_value canonical_doctor_slots ''Date'' = Some ''2025-05-05''"
  "get_slot_value canonical_doctor_slots ''Time'' = None"
  by (simp_all add: lowercase_doctor_slots_def canonical_doctor_slots_def get_slot_value_def
        filled_def)

lemma find_sarah_lowercase:
  "find (\<lambda>v. lower v = lower ''dr. sarah jones'') VALID_DOCTORS = Some ''Dr. Sarah Jones''"
  by (simp add: VALID_DOCTORS_def lower.simps lower_char_def)

lemma canonical_doctor_slots:
  "set_interpretedValue lowercase_doctor_slots ''DoctorName'' ''Dr. Sarah Jones''
     = Inr canonical_doctor_slots"
  by (simp add: set_interpretedValue_def lowercase_doctor_slots_def canonical_doctor_slots_def
        filled_def fun_eq_iff)

lemma try_body_scan_unavailable:
  "try_body scan_unavailable example_store
       (lex_event lowercase_doctor_slots ''DialogCodeHook'' ''None'')
     = (Inl (ClientError ''ProvisionedThroughputExceededException''), example_store,
        lex_event canonical_doctor_slots ''DialogCodeHook'' ''None'')"
proof -
  have ne: "''dr. sarah jones'' \<noteq> []" by simp
  have "get_available_times scan_unavailable example_store ''Dr. Sarah Jones'' ''2025-05-05''
          = Inl (ClientError ''ProvisionedThroughputExceededException'')"
    by (simp add: get_available_times_def scan_def scan_unavailable_def)
  then have "dialog_steps scan_unavailable example_store
          (lex_intent canonical_doctor_slots ''None'') canonical_doctor_slots
          ''DialogCodeHook'' ''None'' (Some ''Dr. Sarah Jones'')
        = (Inl (ClientError ''ProvisionedThroughputExceededException''), example_store)"
    by (simp add: dialog_steps_def step1_def lowercase_doctor_values truthy_def str_of_def Let_def)
  then show ?thesis
    using try_body_valid_doctor
      [OF lex_event_fields(1) lex_event_fields(2) lex_event_fields(3) lex_event_fields(4)
          lowercase_doctor_values(1) ne find_sarah_lowercase canonical_doctor_slots,
       where flt = scan_unavailable and db = example_store]
    by (simp add: lex_event_fields)
qed

text \<open>
  C7 as stated fails: when the scan raises after the doctor \<open>dr. sarah jones\<close> was
  accepted, the apology response carries \<open>Dr. Sarah Jones\<close>, not the value of the event.
\<close>

theorem failed_scan_returns_changed_doctor:
  "lambda_handler scan_unavailable example_store
       (lex_event lowercase_doctor_slots ''DialogCodeHook'' ''None'')
     = (close (lex_intent canonical_doctor_slots ''None'') apology_msg, example_store)
   \<and> event_intent (lex_event lowercase_doctor_slots ''DialogCodeHook'' ''None'')
       = lex_intent lowercase_doctor_slots ''None''
   \<and> get_slot_value lowercase_doctor_slots ''DoctorName'' = Some ''dr. sarah jones''
   \<and> get_slot_value canonical_doctor_slots ''DoctorName'' = Some ''Dr. Sarah Jones''
   \<and> lex_intent canonical_doctor_slots ''None'' \<noteq> lex_intent lowercase_doctor_slots ''None''"
proof -
  have "canonical_doctor_slots \<noteq> lowercase_doctor_slots"
    using lowercase_doctor_values(1,4) by auto
  then show ?thesis
    using lambda_handler_raises [OF try_body_scan_unavailable]
    by (simp add: lowercase_doctor_values event_intent_def lex_event_def lex_session_def
          lex_intent_def)
qed

theorem outer_except_passes_event_intent_witness:
  "lambda_handler scan_unavailable example_store
       (lex_event lowercase_doctor_slots ''DialogCodeHook'' ''None'')
     = (close (event_intent (lex_event canonical_doctor_slots ''DialogCodeHook'' ''None''))
          apology_msg, example_store)"
  using outer_except_passes_event_intent [OF try_body_scan_unavailable] by simp

section \<open>A slot that is already booked\<close>

lemma split_not_Nil: "split c s \<noteq> []"
  by (induction s) (auto split: list.splits)

lemma join_split: "join [c] (split c s) = s"
proof (induction s)
  case Nil
  show ?case by simp
next
  case (Cons x xs)
  obtain p ps where ps: "split c xs = p # ps"
    using split_not_Nil [of c xs] by (cases "split c xs") auto
  show ?case
  proof (cases "x = c")
    case True
    then show ?thesis using Cons ps by simp
  next
    case False
    then show ?thesis using Cons ps by (cases ps) auto
  qed
qed

lemma well_formed_key_parts:
  assumes "well_formed_key k"
  obtains d t where "split (CHR ''_'') k = [d, t]" and "length d = 10" and "k = d @ ''_'' @ t"
proof -
  from assms obtain d t where s: "split (CHR ''_'') k = [d, t]" and l: "length d = 10"
    by (auto simp: well_formed_key_def split: list.splits)
  have "join ''_'' (split (CHR ''_'') k) = k" by (rule join_split)
  then have "k = d @ ''_'' @ t" using s by simp
  with s l show ?thesis by (rule that)
qed

lemma time_labels_well_formed:
  assumes "list_all (\<lambda>item. well_formed_key (Date_Time item)) items"
  shows "\<exists>ts. time_labels items = Inr ts
           \<and> (\<forall>t \<in> set ts. \<exists>item \<in> set items. \<exists>d. length d = 10
                  \<and> Date_Time item = d @ ''_'' @ t)"
  using assms
proof (induction items)
  case Nil
  show ?case by simp
next
  case (Cons item items)
  then obtain ts where ts: "time_labels items = Inr ts"
    and mem: "\<forall>t \<in> set ts. \<exists>item \<in> set items. \<exists>d. length d = 10 \<and> Date_Time item = d @ ''_'' @ t"
    by auto
  from Cons.prems have "well_formed_key (Date_Time item)" by simp
  then obtain d t where s: "split (CHR ''_'') (Date_Time item) = [d, t]"
    and l: "length d = 10" and k: "Date_Time item = d @ ''_'' @ t"
    by (rule well_formed_key_parts)
  have "time_labels (item # items) = Inr (t # ts)" using s ts by simp
  moreover have "\<forall>u \<in> set (t # ts). \<exists>i \<in> set (item # items). \<exists>d. length d = 10
      \<and> Date_Time i = d @ ''_'' @ u"
    using mem l k by auto
  ultimately show ?case by blast
qed

lemma prefix_same_length: "prefix xs (ys @ zs) \<Longrightarrow> length xs = length ys \<Longrightarrow> xs = ys"
  by (auto simp: prefix_def append_eq_append_conv)

lemma booked_slot_not_listed:
  assumes wf: "well_formed_schedule db" and scan: "flt Scan = None"
    and date: "length date = 10"
    and booked: "slot_booked db doctor (date @ ''_'' @ time)"
  shows "\<exists>av. get_available_times flt db doctor date = Inr av \<and> time \<notin> set av"
proof -
  let ?P = "\<lambda>item. DoctorName item = doctor \<and> prefix date (Date_Time item)
                    \<and> Status item = ''available''"
  let ?items = "filter ?P (schedule_table db)"
  have "list_all (\<lambda>item. well_formed_key (Date_Time item)) ?items"
    using wf by (auto simp: well_formed_schedule_def list_all_iff)
  then obtain av where av: "time_labels ?items = Inr av"
    and mem: "\<forall>t \<in> set av. \<exists>item \<in> set ?items. \<exists>d. length d = 10
                \<and> Date_Time item = d @ ''_'' @ t"
    using time_labels_well_formed by blast
  have g: "get_available_times flt db doctor date = Inr av"
    using scan av by (simp add: get_available_times_def scan_def)
  have "time \<notin> set av"
  proof
    assume "time \<in> set av"
    with mem obtain item d where item: "item \<in> set (schedule_table db)" "?P item"
      and d: "length d = 10" "Date_Time item = d @ ''_'' @ time"
      by auto
    have "date = d" using item(2) d date by (auto intro: prefix_same_length)
    then have key: "(DoctorName item, Date_Time item) = (doctor, date @ ''_'' @ time)"
      using item(2) d(2) by simp
    from booked obtain other where other: "other \<in> set (schedule_table db)"
      "DoctorName other = doctor" "Date_Time other = date @ ''_'' @ time"
      "Status other = ''booked''"
      by (auto simp: slot_booked_def has_key_def list_ex_iff)
    have "inj_on (\<lambda>item. (DoctorName item, Date_Time item)) (set (schedule_table db))"
      using wf by (simp add: well_formed_schedule_def distinct_map)
    then have "item = other"
      using item(1) other(1-3) key by (auto dest: inj_onD)
    then show False using item(2) other(4) by simp
  qed
  with g show ?thesis by blast
qed

text \<open>
  C2, as the code has it. On a turn with a valid doctor, a date and a time whose slot is
  already booked in a well-formed schedule (in particular the fulfillment turn with all
  fields filled and \<open>Confirmation\<close> \<open>yes\<close>), the check of step 2 answers: the time is
  not in the availability list, the handler asks for \<open>Time\<close> again with the current
  list, and the store is unchanged, so no appointment is created and the counter is
  not advanced.
\<close>

theorem booked_slot_asks_for_time:
  assumes ev: "sessionState event = Some session" "session_intent session = Some intent"
      "intent_slots intent = Some slots" "invocationSource event = Some src"
    and doc: "get_slot_value slots ''DoctorName'' = Some d" "d \<noteq> []"
      "find (\<lambda>v. lower v = lower d) VALID_DOCTORS = Some dn"
      "set_interpretedValue slots ''DoctorName'' dn = Inr slots'"
    and date: "get_slot_value slots ''Date'' = Some date" "length date = 10"
    and time: "get_slot_value slots ''Time'' = Some time" "time \<noteq> []"
    and scan: "flt Scan = None"
    and wf: "well_formed_schedule db"
    and booked: "slot_booked db dn (date @ ''_'' @ time)"
  shows "\<exists>av. get_available_times flt db dn date = Inr av \<and> time \<notin> set av
           \<and> lambda_handler flt db event =
               (elicit_slot ''Time'' (intent\<lparr>intent_slots := Some slots'\<rparr>)
                  (''Sorry, '' @ time @ '' is not available. '' @ dn @ '' is available on ''
                     @ date @ '' at: '' @ join '', '' av
                     @ ''. Please choose one of these times.''), db)
           \<and> appointments_table (snd (lambda_handler flt db event)) = appointments_table db
           \<and> id_counter_table (snd (lambda_handler flt db event)) = id_counter_table db"
proof -
  let ?cs = "case confirmationState intent of None \<Rightarrow> [] | Some s \<Rightarrow> s"
  obtain av where av: "get_available_times flt db dn date = Inr av" and no: "time \<notin> set av"
    using booked_slot_not_listed [where flt = flt, OF wf _ date(2) booked] scan by blast
  have dn: "truthy (Some dn)" using doc(3) by (rule valid_doctor_truthy)
  have ne: "date \<noteq> []" using date(2) by auto
  have date': "get_slot_value slots' ''Date'' = Some date"
    using get_slot_value_set_other [OF doc(4), of "''Date''"] date(1) by simp
  have time': "get_slot_value slots' ''Time'' = Some time"
    using get_slot_value_set_other [OF doc(4), of "''Time''"] time(1) by simp
  have av': "get_available_times flt db (str_of (Some dn)) date = Inr av"
    using av by (simp add: str_of_def)
  have "lambda_handler flt db event =
      (elicit_slot ''Time'' (intent\<lparr>intent_slots := Some slots'\<rparr>)
         (''Sorry, '' @ time @ '' is not available. '' @ dn @ '' is available on '' @ date
            @ '' at: '' @ join '', '' av @ ''. Please choose one of these times.''), db)"
    using try_body_valid_doctor [OF ev doc, of flt db]
      dialog_steps_time_rejected [OF dn date' ne time' time(2) av' no,
        of "intent\<lparr>intent_slots := Some slots'\<rparr>" src ?cs]
    by (simp add: lambda_handler_def fmt_def)
  then show ?thesis using av no by simp
qed

lemma example_store_well_formed: "well_formed_schedule example_store"
  by (simp add: well_formed_schedule_def well_formed_key_def example_store_def)

lemma example_slot_booked: "slot_booked example_store ''Dr. Sarah Jones'' ''2025-05-05_10:00''"
  by (simp add: slot_booked_def has_key_def example_store_def)

text \<open>
  C2 as stated fails: the slot of 10:00 is booked, and the response of the fulfillment
  turn is the prompt for another time, not the conflict message.
\<close>

theorem booked_slot_gets_time_prompt:
  "slot_booked example_store ''Dr. Sarah Jones'' ''2025-05-05_10:00''
   \<and> lambda_handler no_faults example_store
         (lex_event (all_filled ''10:00'' ''yes'') ''FulfillmentCodeHook'' ''Confirmed'')
       = (elicit_slot ''Time'' (lex_intent (all_filled ''10:00'' ''yes'') ''Confirmed'')
            ''Sorry, 10:00 is not available. Dr. Sarah Jones is available on 2025-05-05 at: 09:00, 11:00. Please choose one of these times.'',
          example_store)
   \<and> fst (lambda_handler no_faults example_store
            (lex_event (all_filled ''10:00'' ''yes'') ''FulfillmentCodeHook'' ''Confirmed''))
       \<noteq> close (lex_intent (all_filled ''10:00'' ''yes'') ''Confirmed'') conflict_msg"
proof -
  have "dialog_steps no_faults example_store (lex_intent (all_filled ''10:00'' ''yes'') ''Confirmed'')
          (all_filled ''10:00'' ''yes'') ''FulfillmentCodeHook'' ''Confirmed''
          (Some ''Dr. Sarah Jones'')
        = (Inr (elicit_slot ''Time'' (lex_intent (all_filled ''10:00'' ''yes'') ''Confirmed'')
            ''Sorry, 10:00 is not available. Dr. Sarah Jones is available on 2025-05-05 at: 09:00, 11:00. Please choose one of these times.''),
           example_store)"
    by (simp add: dialog_steps_def step1_def step2_def all_filled_values truthy_def str_of_def
          fmt_def example_available Let_def)
  then have "lambda_handler no_faults example_store
         (lex_event (all_filled ''10:00'' ''yes'') ''FulfillmentCodeHook'' ''Confirmed'')
       = (elicit_slot ''Time'' (lex_intent (all_filled ''10:00'' ''yes'') ''Confirmed'')
            ''Sorry, 10:00 is not available. Dr. Sarah Jones is available on 2025-05-05 at: 09:00, 11:00. Please choose one of these times.'',
          example_store)"
    by (simp add: lambda_handler_def try_body_all_filled)
  then show ?thesis
    by (simp add: example_slot_booked elicit_slot_def close_def)
qed

theorem booked_slot_asks_for_time_witness:
  "get_available_times no_faults example_store ''Dr. Sarah Jones'' ''2025-05-05''
     = Inr [''09:00'', ''11:00'']
   \<and> appointments_table (snd (lambda_handler no_faults example_store
        (lex_event (all_filled ''10:00'' ''yes'') ''FulfillmentCodeHook'' ''Confirmed'')))
      = appointments_table example_store
   \<and> id_counter_table (snd (lambda_handler no_faults example_store
        (lex_event (all_filled ''10:00'' ''yes'') ''FulfillmentCodeHook'' ''Confirmed'')))
      = id_counter_table example_store"
proof -
  have "\<exists>av. get_available_times no_faults example_store ''Dr. Sarah Jones'' ''2025-05-05'' = Inr av
          \<and> ''10:00'' \<notin> set av
          \<and> lambda_handler no_faults example_store
               (lex_event (all_filled ''10:00'' ''yes'') ''FulfillmentCodeHook'' ''Confirmed'') =
              (elicit_slot ''Time''
                 ((lex_intent (all_filled ''10:00'' ''yes'') ''Confirmed'')
                    \<lparr>intent_slots := Some (all_filled ''10:00'' ''yes'')\<rparr>)
                 (''Sorry, '' @ ''10:00'' @ '' is not available. '' @ ''Dr. Sarah Jones''
                    @ '' is available on '' @ ''2025-05-05'' @ '' at: '' @ join '', '' av
                    @ ''. Please choose one of these times.''), example_store)
          \<and> appointments_table (snd (lambda_handler no_faults example_store
               (lex_event (all_filled ''10:00'' ''yes'') ''FulfillmentCodeHook'' ''Confirmed'')))
             = appointments_table example_store
          \<and> id_counter_table (snd (lambda_handler no_faults example_store
               (lex_event (all_filled ''10:00'' ''yes'') ''FulfillmentCodeHook'' ''Confirmed'')))
             = id_counter_table example_store"
    by (rule booked_slot_asks_for_time
          [where session = "lex_session (all_filled ''10:00'' ''yes'') ''Confirmed''"
             and slots = "all_filled ''10:00'' ''yes''" and src = "''FulfillmentCodeHook''"
             and d = "''Dr. Sarah Jones''"])
       (simp_all add: lex_event_fields all_filled_values find_sarah set_interpretedValue_same
          no_faults_def example_store_well_formed example_slot_booked)
  then show ?thesis by (simp add: example_available)
qed

section \<open>Two bookings of the same slot\<close>

lemma has_key_Status [simp]: "has_key doctor k (item\<lparr>Status := s\<rparr>) = has_key doctor k item"
  by (simp add: has_key_def)

lemma update_item_wins:
  assumes "flt UpdateItem = None" and "truthy doctor"
    and "slot_available db (str_of doctor) k"
  shows "\<exists>db1. update_item flt db doctor k = Inr db1 \<and> \<not> slot_available db1 (str_of doctor) k"
  using assms by (auto simp: update_item_def slot_available_def list_ex_iff)

lemma update_item_loses:
  assumes "flt UpdateItem = None" and "truthy doctor"
    and "\<not> slot_available db (str_of doctor) k"
  shows "update_item flt db doctor k = Inl (ClientError ''ConditionalCheckFailedException'')"
  using assms by (auto simp: update_item_def slot_available_def)

lemma get_next_sequence_schedule:
  "get_next_sequence flt db = Inr (i, db') \<Longrightarrow> schedule_table db' = schedule_table db"
  by (auto simp: get_next_sequence_def Let_def split: option.splits)

lemma put_item_schedule:
  "put_item flt db item = Inr db' \<Longrightarrow> schedule_table db' = schedule_table db"
  by (auto simp: put_item_def split: option.splits)

lemma booking_step_keeps_taken:
  assumes "p \<noteq> AtUpdate" and "booking_step flt b p db = (p', db')"
  shows "schedule_table db' = schedule_table db"
  using assms
  by (cases p)
    (auto split: sum.splits prod.splits dest: get_next_sequence_schedule put_item_schedule)

lemma steps_taken_step:
  "min 3 (Suc (steps_taken p)) \<le> steps_taken (fst (booking_step flt b p db))"
  by (cases p) (auto split: sum.splits prod.splits)

lemma steps_taken_Returned: "3 \<le> steps_taken p \<Longrightarrow> \<exists>r. p = Returned r"
  by (cases p) auto

lemma interleave_snoc:
  "interleave flt b1 b2 (schedule @ [c]) db
     = interleave_step flt b1 b2 (interleave flt b1 b2 schedule db) c"
  by (simp add: interleave_def)

lemma interleave_progress:
  "interleave flt b1 b2 schedule db = (p1, p2, db')
     \<Longrightarrow> min 3 (count_list schedule True) \<le> steps_taken p1
         \<and> min 3 (count_list schedule False) \<le> steps_taken p2"
proof (induction schedule arbitrary: p1 p2 db' rule: rev_induct)
  case Nil
  then show ?case by (simp add: interleave_def)
next
  case (snoc c schedule)
  obtain q1 q2 s where q: "interleave flt b1 b2 schedule db = (q1, q2, s)"
    by (cases "interleave flt b1 b2 schedule db") auto
  note ih = snoc.IH [OF q]
  show ?case
  proof (cases c)
    case True
    then have "p1 = fst (booking_step flt b1 q1 s)" and "p2 = q2"
      using snoc.prems q by (auto simp: interleave_snoc split: prod.splits)
    then show ?thesis
      using ih True steps_taken_step [of q1 flt b1 s] by auto
  next
    case False
    then have "p2 = fst (booking_step flt b2 q2 s)" and "p1 = q1"
      using snoc.prems q by (auto simp: interleave_snoc split: prod.splits)
    then show ?thesis
      using ih False steps_taken_step [of q2 flt b2 s] by auto
  qed
qed


lemma alone_after_Suc:
  "alone_after b db (Suc k) =
     booking_step no_faults b (fst (alone_after b db k)) (snd (alone_after b db k))"
  by (simp add: alone_after_def split_beta)

lemma alone_after_0: "alone_after b db 0 = (AtUpdate, db)"
  by (simp add: alone_after_def)

lemma booking_step_leaves_AtUpdate: "fst (booking_step flt b p db) \<noteq> AtUpdate"
  by (cases p) (auto split: sum.splits prod.splits)

lemma slot_available_schedule:
  "schedule_table db' = schedule_table db \<Longrightarrow> slot_available db' d k = slot_available db d k"
  by (simp add: slot_available_def)

lemma alone_after_first:
  assumes "truthy (b_doctor b)"
    and "slot_available db (str_of (b_doctor b)) (booking_key b)"
  shows "\<exists>db1. alone_after b db (Suc 0) = (AtSequence, db1)
           \<and> \<not> slot_available db1 (str_of (b_doctor b)) (booking_key b)"
proof -
  have "no_faults UpdateItem = None" by (simp add: no_faults_def)
  from update_item_wins [where flt = no_faults, OF this assms]
  obtain db1 where u: "update_item no_faults db (b_doctor b) (booking_key b) = Inr db1"
    and t: "\<not> slot_available db1 (str_of (b_doctor b)) (booking_key b)"
    by blast
  have "booking_step no_faults b AtUpdate db = (AtSequence, db1)"
    using u by (simp add: booking_key_def)
  then have "alone_after b db (Suc 0) = (AtSequence, db1)"
    by (simp add: alone_after_Suc alone_after_0)
  with t show ?thesis by blast
qed

lemma alone_after_taken_Suc:
  assumes "truthy (b_doctor b)"
    and "slot_available db (str_of (b_doctor b)) (booking_key b)"
  shows "fst (alone_after b db (Suc j)) \<noteq> AtUpdate
         \<and> \<not> slot_available (snd (alone_after b db (Suc j))) (str_of (b_doctor b)) (booking_key b)"
proof (induction j)
  case 0
  from alone_after_first [OF assms] show ?case by auto
next
  case (Suc j)
  let ?p = "fst (alone_after b db (Suc j))" and ?s = "snd (alone_after b db (Suc j))"
  obtain p' db' where st: "booking_step no_faults b ?p ?s = (p', db')"
    by (cases "booking_step no_faults b ?p ?s") auto
  have eq: "alone_after b db (Suc (Suc j)) = (p', db')"
    using st by (simp only: alone_after_Suc [of b db "Suc j"])
  have ih1: "?p \<noteq> AtUpdate"
    and ih2: "\<not> slot_available ?s (str_of (b_doctor b)) (booking_key b)"
    using Suc by blast+
  have "schedule_table db' = schedule_table ?s"
    using ih1 st by (rule booking_step_keeps_taken)
  then have "slot_available db' (str_of (b_doctor b)) (booking_key b)
               = slot_available ?s (str_of (b_doctor b)) (booking_key b)"
    by (rule slot_available_schedule)
  with ih2 have "\<not> slot_available db' (str_of (b_doctor b)) (booking_key b)"
    by blast
  moreover have "fst (booking_step no_faults b ?p ?s) \<noteq> AtUpdate"
    by (rule booking_step_leaves_AtUpdate)
  then have "p' \<noteq> AtUpdate"
    by (simp add: st)
  ultimately show ?case by (simp only: eq fst_conv snd_conv) blast
qed

lemma alone_after_taken:
  assumes "truthy (b_doctor b)"
    and "slot_available db (str_of (b_doctor b)) (booking_key b)"
    and "0 < k"
  shows "fst (alone_after b db k) \<noteq> AtUpdate
         \<and> \<not> slot_available (snd (alone_after b db k)) (str_of (b_doctor b)) (booking_key b)"
proof -
  from assms(3) obtain j where "k = Suc j" by (cases k) auto
  then show ?thesis using alone_after_taken_Suc [OF assms(1,2), of j] by simp
qed

lemma loser_step:
  assumes "truthy (b_doctor b)" and "\<not> slot_available db (str_of (b_doctor b)) (booking_key b)"
  shows "booking_step no_faults b AtUpdate db = (conflict b, db)"
proof -
  have "no_faults UpdateItem = None" by (simp add: no_faults_def)
  from update_item_loses [where flt = no_faults, OF this assms] show ?thesis
    by (simp add: booking_key_def conflict_def booking_failed_def is_ClientError_def)
qed

lemma one_winner_first:
  "0 < k \<Longrightarrow> alone_after b1 db0 k = (p1, db) \<Longrightarrow> p2 = AtUpdate \<or> p2 = conflict b2
     \<Longrightarrow> one_winner b1 b2 db0 (p1, p2, db)"
  unfolding one_winner_def by blast

lemma one_winner_second:
  "0 < k \<Longrightarrow> alone_after b2 db0 k = (p2, db) \<Longrightarrow> p1 = AtUpdate \<or> p1 = conflict b1
     \<Longrightarrow> one_winner b1 b2 db0 (p1, p2, db)"
  unfolding one_winner_def by blast

lemma interleave_step_first:
  "interleave_step flt b1 b2 (p1, p2, db) True
     = (fst (booking_step flt b1 p1 db), p2, snd (booking_step flt b1 p1 db))"
  by (simp add: split_beta)

lemma interleave_step_second:
  "interleave_step flt b1 b2 (p1, p2, db) False
     = (p1, fst (booking_step flt b2 p2 db), snd (booking_step flt b2 p2 db))"
  by (simp add: split_beta)

lemma winner_step:
  assumes "alone_after b db0 k = (p, db)"
  shows "alone_after b db0 (Suc k)
           = (fst (booking_step no_faults b p db), snd (booking_step no_faults b p db))"
  using assms by (simp add: alone_after_Suc)

lemma loser_steps:
  assumes "truthy (b_doctor b)" and "\<not> slot_available db (str_of (b_doctor b)) (booking_key b)"
    and "p = AtUpdate \<or> p = conflict b"
  shows "booking_step no_faults b p db = (conflict b, db)"
  using assms(3)
proof
  assume "p = AtUpdate"
  then show ?thesis using loser_step [OF assms(1,2)] by simp
next
  assume "p = conflict b"
  then show ?thesis by (simp add: conflict_def)
qed

lemma one_winner_step:
  assumes same: "b_doctor b2 = b_doctor b1" "booking_key b2 = booking_key b1"
    and doctor: "truthy (b_doctor b1)"
    and avail: "slot_available db0 (str_of (b_doctor b1)) (booking_key b1)"
    and inv: "one_winner b1 b2 db0 cfg"
  shows "one_winner b1 b2 db0 (interleave_step no_faults b1 b2 cfg c)"
proof -
  obtain p1 p2 db where cfg: "cfg = (p1, p2, db)" by (cases cfg) auto
  have doctor2: "truthy (b_doctor b2)"
    and avail2: "slot_available db0 (str_of (b_doctor b2)) (booking_key b2)"
    using same doctor avail by simp_all
  from inv have "(p1 = AtUpdate \<and> p2 = AtUpdate \<and> db = db0)
      \<or> (\<exists>k. 0 < k \<and> alone_after b1 db0 k = (p1, db) \<and> (p2 = AtUpdate \<or> p2 = conflict b2))
      \<or> (\<exists>k. 0 < k \<and> alone_after b2 db0 k = (p2, db) \<and> (p1 = AtUpdate \<or> p1 = conflict b1))"
    unfolding one_winner_def cfg by simp
  then consider
      (start) "p1 = AtUpdate" "p2 = AtUpdate" "db = db0"
    | (first) k where "0 < k" "alone_after b1 db0 k = (p1, db)" "p2 = AtUpdate \<or> p2 = conflict b2"
    | (second) k where "0 < k" "alone_after b2 db0 k = (p2, db)" "p1 = AtUpdate \<or> p1 = conflict b1"
    by blast
  then show ?thesis
  proof cases
    case start
    show ?thesis
    proof (cases c)
      case True
      have "alone_after b1 db0 (Suc 0)
              = (fst (booking_step no_faults b1 p1 db), snd (booking_step no_faults b1 p1 db))"
        using start by (intro winner_step) (simp add: alone_after_0)
      then have "one_winner b1 b2 db0
          (fst (booking_step no_faults b1 p1 db), p2, snd (booking_step no_faults b1 p1 db))"
        using start(2) by (intro one_winner_first [of "Suc 0"]) simp_all
      then show ?thesis using True by (simp add: cfg interleave_step_first del: interleave_step.simps)
    next
      case False
      have "alone_after b2 db0 (Suc 0)
              = (fst (booking_step no_faults b2 p2 db), snd (booking_step no_faults b2 p2 db))"
        using start by (intro winner_step) (simp add: alone_after_0)
      then have "one_winner b1 b2 db0
          (p1, fst (booking_step no_faults b2 p2 db), snd (booking_step no_faults b2 p2 db))"
        using start(1) by (intro one_winner_second [of "Suc 0"]) simp_all
      then show ?thesis using False by (simp add: cfg interleave_step_second del: interleave_step.simps)
    qed
  next
    case first
    show ?thesis
    proof (cases c)
      case True
      have "one_winner b1 b2 db0
          (fst (booking_step no_faults b1 p1 db), p2, snd (booking_step no_faults b1 p1 db))"
        using winner_step [OF first(2)] first(3)
        by (intro one_winner_first [of "Suc k"]) simp_all
      then show ?thesis using True by (simp add: cfg interleave_step_first del: interleave_step.simps)
    next
      case False
      have "\<not> slot_available (snd (alone_after b1 db0 k)) (str_of (b_doctor b1)) (booking_key b1)"
        using alone_after_taken [OF doctor avail first(1)] by simp
      then have "\<not> slot_available db (str_of (b_doctor b2)) (booking_key b2)"
        using first(2) same by simp
      then have st: "booking_step no_faults b2 p2 db = (conflict b2, db)"
        using doctor2 first(3) by (intro loser_steps)
      have "one_winner b1 b2 db0 (p1, conflict b2, db)"
        using first(1,2) by (intro one_winner_first [of k]) simp_all
      then show ?thesis using False by (simp add: cfg interleave_step_second st del: interleave_step.simps)
    qed
  next
    case second
    show ?thesis
    proof (cases c)
      case False
      have "one_winner b1 b2 db0
          (p1, fst (booking_step no_faults b2 p2 db), snd (booking_step no_faults b2 p2 db))"
        using winner_step [OF second(2)] second(3)
        by (intro one_winner_second [of "Suc k"]) simp_all
      then show ?thesis using False by (simp add: cfg interleave_step_second del: interleave_step.simps)
    next
      case True
      have "\<not> slot_available (snd (alone_after b2 db0 k)) (str_of (b_doctor b2)) (booking_key b2)"
        using alone_after_taken [OF doctor2 avail2 second(1)] by simp
      then have "\<not> slot_available db (str_of (b_doctor b1)) (booking_key b1)"
        using second(2) same by simp
      then have st: "booking_step no_faults b1 p1 db = (conflict b1, db)"
        using doctor second(3) by (intro loser_steps)
      have "one_winner b1 b2 db0 (conflict b1, p2, db)"
        using second(1,2) by (intro one_winner_second [of k]) simp_all
      then show ?thesis using True by (simp add: cfg interleave_step_first st del: interleave_step.simps)
    qed
  qed
qed

lemma one_winner_run:
  assumes same: "b_doctor b2 = b_doctor b1" "booking_key b2 = booking_key b1"
    and doctor: "truthy (b_doctor b1)"
    and avail: "slot_available db0 (str_of (b_doctor b1)) (booking_key b1)"
  shows "one_winner b1 b2 db0 (interleave no_faults b1 b2 schedule db0)"
proof (induction schedule rule: rev_induct)
  case Nil
  show ?case by (simp add: interleave_def one_winner_def)
next
  case (snoc c schedule)
  show ?case
    unfolding interleave_snoc using snoc by (rule one_winner_step [OF same doctor avail])
qed


lemma alone_after_progress: "min 3 k \<le> steps_taken (fst (alone_after b db k))"
proof (induction k)
  case 0
  show ?case by simp
next
  case (Suc k)
  have "min 3 (Suc (steps_taken (fst (alone_after b db k))))
          \<le> steps_taken (fst (alone_after b db (Suc k)))"
    unfolding alone_after_Suc by (rule steps_taken_step)
  with Suc show ?case by simp
qed

lemma alone_after_stays:
  assumes "fst (alone_after b db k) = Returned r"
  shows "alone_after b db (k + j) = alone_after b db k"
proof (induction j)
  case 0
  show ?case by simp
next
  case (Suc j)
  have "alone_after b db (Suc (k + j))
          = booking_step no_faults b (fst (alone_after b db k)) (snd (alone_after b db k))"
    unfolding alone_after_Suc Suc ..
  also have "\<dots> = alone_after b db k"
    using assms by (cases "alone_after b db k") simp
  finally show ?case by simp
qed

lemma alone_after_returned:
  assumes "fst (alone_after b db k) = Returned r"
  shows "alone_after b db k = alone_after b db 3"
proof (cases "k \<le> 3")
  case True
  then have "alone_after b db (k + (3 - k)) = alone_after b db k"
    using assms by (intro alone_after_stays)
  then show ?thesis using True by simp
next
  case False
  obtain r' where r': "fst (alone_after b db 3) = Returned r'"
    using steps_taken_Returned [of "fst (alone_after b db 3)"] alone_after_progress [of 3 b db]
    by auto
  have "alone_after b db (3 + (k - 3)) = alone_after b db 3"
    using r' by (rule alone_after_stays)
  then show ?thesis using False by simp
qed

lemma alone_after_step7:
  "alone_after b db 3 =
     (Returned (fst (step7 no_faults db (b_intent b) (b_doctor b) (b_date b) (b_time b)
                       (b_name b) (b_phone b))),
      snd (step7 no_faults db (b_intent b) (b_doctor b) (b_date b) (b_time b)
             (b_name b) (b_phone b)))"
  by (simp add: alone_after_def numeral_3_eq_3 step7_def Let_def
        split: sum.splits prod.splits)

lemma confirmed_not_conflict:
  "confirmed intent appointment_id doctor date time \<noteq> Inr (close intent' conflict_msg)"
  by (simp add: confirmed_def close_def conflict_msg_def plain_text_def split: option.splits)

lemma step7_books:
  assumes "truthy doctor"
    and "slot_available db (str_of doctor) (fmt date @ ''_'' @ fmt time)"
    and "intent_name intent = Some n"
  shows "\<exists>appointment_id r db'.
           step7 no_faults db intent doctor date time name phone = (Inr r, db')
           \<and> confirmed intent appointment_id doctor date time = Inr r
           \<and> appointment_id = last7 (str ((case id_counter_table db ''appointment_id'' of
                                               None \<Rightarrow> 1000000 | Some v \<Rightarrow> v) + 1))
           \<and> \<not> slot_available db' (str_of doctor) (fmt date @ ''_'' @ fmt time)
           \<and> appointments_table db' =
               (appointments_table db)(appointment_id \<mapsto>
                  \<lparr>AppointmentId = appointment_id, appt_DoctorName = doctor, appt_Date = date,
                   appt_Time = time, appt_Name = name, appt_Phone = phone,
                   appt_Status = ''confirmed''\<rparr>)
           \<and> id_counter_table db' ''appointment_id'' =
               Some ((case id_counter_table db ''appointment_id'' of
                        None \<Rightarrow> 1000000 | Some v \<Rightarrow> v) + 1)"
proof -
  have nf: "no_faults UpdateItem = None" by (simp add: no_faults_def)
  from update_item_wins [where flt = no_faults, OF nf assms(1,2)]
  obtain db1 where u: "update_item no_faults db doctor (fmt date @ ''_'' @ fmt time) = Inr db1"
    and t: "\<not> slot_available db1 (str_of doctor) (fmt date @ ''_'' @ fmt time)"
    by blast
  have same: "appointments_table db1 = appointments_table db"
    "id_counter_table db1 = id_counter_table db"
    using u by (auto simp: update_item_def split: option.splits if_splits)
  show ?thesis
    using u t same assms(3)
    by (simp add: step7_def Let_def get_next_sequence_def put_item_def no_faults_def
          confirmed_def slot_available_def)
qed

text \<open>
  C3. Two bookings of the same doctor, date and time start while the slot is available,
  and their store calls interleave in any order in which each gets its three steps (every
  store call atomic, none failing for a reason of the store's own). Then exactly one of
  them wins: it returns the confirmation that step 7 returns when it runs alone, and the
  store ends as that single booking leaves it; the other returns the conflict message.
  The confirmation is not the conflict message, so never both succeed and never both
  fail.
\<close>

theorem concurrent_bookings_one_winner:
  assumes same: "b_doctor b2 = b_doctor b1" "b_date b2 = b_date b1" "b_time b2 = b_time b1"
    and doctor: "truthy (b_doctor b1)"
    and names: "intent_name (b_intent b1) = Some n1" "intent_name (b_intent b2) = Some n2"
    and avail: "slot_available db (str_of (b_doctor b1)) (booking_key b1)"
    and fair: "3 \<le> count_list schedule True" "3 \<le> count_list schedule False"
  shows "\<exists>r db'.
           r \<noteq> close (b_intent b1) conflict_msg \<and> r \<noteq> close (b_intent b2) conflict_msg
           \<and> ((interleave no_faults b1 b2 schedule db = (Returned (Inr r), conflict b2, db')
                \<and> step7 no_faults db (b_intent b1) (b_doctor b1) (b_date b1) (b_time b1)
                     (b_name b1) (b_phone b1) = (Inr r, db'))
              \<or> (interleave no_faults b1 b2 schedule db = (conflict b1, Returned (Inr r), db')
                \<and> step7 no_faults db (b_intent b2) (b_doctor b2) (b_date b2) (b_time b2)
                     (b_name b2) (b_phone b2) = (Inr r, db')))"
proof -
  obtain p1 p2 db' where run: "interleave no_faults b1 b2 schedule db = (p1, p2, db')"
    by (cases "interleave no_faults b1 b2 schedule db") auto
  have key: "booking_key b2 = booking_key b1" using same by (simp add: booking_key_def)
  have doctor2: "truthy (b_doctor b2)" using same doctor by simp
  have avail1: "slot_available db (str_of (b_doctor b1)) (fmt (b_date b1) @ ''_'' @ fmt (b_time b1))"
    using avail by (simp add: booking_key_def)
  have avail2: "slot_available db (str_of (b_doctor b2)) (fmt (b_date b2) @ ''_'' @ fmt (b_time b2))"
    using avail same by (simp add: booking_key_def)
  from interleave_progress [OF run] fair
  have "3 \<le> steps_taken p1" and "3 \<le> steps_taken p2" by simp_all
  then obtain r1 r2 where ret: "p1 = Returned r1" "p2 = Returned r2"
    by (auto dest!: steps_taken_Returned)
  have "one_winner b1 b2 db (p1, p2, db')"
    using one_winner_run [OF same(1) key doctor avail, of schedule] run by simp
  then consider
      (first) k where "alone_after b1 db k = (p1, db')" "p2 = conflict b2"
    | (second) k where "alone_after b2 db k = (p2, db')" "p1 = conflict b1"
    unfolding one_winner_def using ret by auto
  then show ?thesis
  proof cases
    case first
    from step7_books [OF doctor avail1 names(1), of "b_name b1" "b_phone b1"]
    obtain i r s where s7: "step7 no_faults db (b_intent b1) (b_doctor b1) (b_date b1) (b_time b1)
        (b_name b1) (b_phone b1) = (Inr r, s)"
      and c: "confirmed (b_intent b1) i (b_doctor b1) (b_date b1) (b_time b1) = Inr r"
      by blast
    have "alone_after b1 db k = alone_after b1 db 3"
      using first(1) ret(1) by (intro alone_after_returned [of _ _ _ r1]) simp
    then have "(p1, db') = (Returned (Inr r), s)"
      using first(1) s7 by (simp add: alone_after_step7)
    moreover have "r \<noteq> close (b_intent b1) conflict_msg" "r \<noteq> close (b_intent b2) conflict_msg"
      using confirmed_not_conflict [of "b_intent b1" i "b_doctor b1" "b_date b1" "b_time b1"] c
      by auto
    ultimately show ?thesis using run first(2) s7 by auto
  next
    case second
    from step7_books [OF doctor2 avail2 names(2), of "b_name b2" "b_phone b2"]
    obtain i r s where s7: "step7 no_faults db (b_intent b2) (b_doctor b2) (b_date b2) (b_time b2)
        (b_name b2) (b_phone b2) = (Inr r, s)"
      and c: "confirmed (b_intent b2) i (b_doctor b2) (b_date b2) (b_time b2) = Inr r"
      by blast
    have "alone_after b2 db k = alone_after b2 db 3"
      using second(1) ret(2) by (intro alone_after_returned [of _ _ _ r2]) simp
    then have "(p2, db') = (Returned (Inr r), s)"
      using second(1) s7 by (simp add: alone_after_step7)
    moreover have "r \<noteq> close (b_intent b1) conflict_msg" "r \<noteq> close (b_intent b2) conflict_msg"
      using confirmed_not_conflict [of "b_intent b2" i "b_doctor b2" "b_date b2" "b_time b2"] c
      by auto
    ultimately show ?thesis using run second(2) s7 by auto
  qed
qed


lemma example_slot_available:
  "slot_available example_store ''Dr. Sarah Jones'' ''2025-05-05_09:00''"
  by (simp add: slot_available_def has_key_def example_store_def)

theorem concurrent_bookings_one_winner_witness:
  "\<exists>r db'.
     r \<noteq> close (b_intent (booking_for ''Ann Lee'')) conflict_msg
     \<and> r \<noteq> close (b_intent (booking_for ''Bob Ray'')) conflict_msg
     \<and> ((interleave no_faults (booking_for ''Ann Lee'') (booking_for ''Bob Ray'')
            [False, True, True, False, True, False] example_store
            = (Returned (Inr r), conflict (booking_for ''Bob Ray''), db')
          \<and> step7 no_faults example_store (b_intent (booking_for ''Ann Lee''))
               (b_doctor (booking_for ''Ann Lee'')) (b_date (booking_for ''Ann Lee''))
               (b_time (booking_for ''Ann Lee'')) (b_name (booking_for ''Ann Lee''))
               (b_phone (booking_for ''Ann Lee'')) = (Inr r, db'))
        \<or> (interleave no_faults (booking_for ''Ann Lee'') (booking_for ''Bob Ray'')
            [False, True, True, False, True, False] example_store
            = (conflict (booking_for ''Ann Lee''), Returned (Inr r), db')
          \<and> step7 no_faults example_store (b_intent (booking_for ''Bob Ray''))
               (b_doctor (booking_for ''Bob Ray'')) (b_date (booking_for ''Bob Ray''))
               (b_time (booking_for ''Bob Ray'')) (b_name (booking_for ''Bob Ray''))
               (b_phone (booking_for ''Bob Ray'')) = (Inr r, db')))"
  by (rule concurrent_bookings_one_winner
        [where ?n1.0 = "''BookAppointment''" and ?n2.0 = "''BookAppointment''"])
     (simp_all add: booking_for_def lex_intent_def truthy_def str_of_def fmt_def booking_key_def
        example_slot_available)

section \<open>The booking, when it is reached\<close>

text \<open>
  Step 7 on its own does what the booking protocol asks. When the conditional update is
  refused, the response is the conflict message and nothing is written. When
  \<open>Confirmation\<close> holds a value other than yes or no (here \<open>yep\<close>), the fulfillment turn
  reaches step 7 and books: the slot is taken, the appointment \<open>1000001\<close> is written
  and the counter advances.
\<close>

lemma step7_conflict:
  assumes "flt UpdateItem = None" and "truthy doctor"
    and "\<not> slot_available db (str_of doctor) (fmt date @ ''_'' @ fmt time)"
  shows "step7 flt db intent doctor date time name phone = (Inr (close intent conflict_msg), db)"
proof -
  have "update_item flt db doctor (fmt date @ ''_'' @ fmt time)
          = Inl (ClientError ''ConditionalCheckFailedException'')"
    using assms by (rule update_item_loses)
  then show ?thesis
    by (simp add: step7_def booking_failed_def is_ClientError_def)
qed

lemma example_next_id:
  "id_counter_table example_store ''appointment_id'' = None"
  "appointments_table example_store = Map.empty"
  "last7 (str 1000001) = ''1000001''"
  by (simp_all add: example_store_def last7_def str_def digits.simps digit_char_def)

lemma other_affirmation_books:
  "\<exists>r db'.
     lambda_handler no_faults example_store
       (lex_event (all_filled ''09:00'' ''yep'') ''FulfillmentCodeHook'' ''Confirmed'') = (r, db')
     \<and> confirmed (lex_intent (all_filled ''09:00'' ''yep'') ''Confirmed'') ''1000001''
           (Some ''Dr. Sarah Jones'') (Some ''2025-05-05'') (Some ''09:00'') = Inr r
     \<and> \<not> slot_available db' ''Dr. Sarah Jones'' ''2025-05-05_09:00''
     \<and> appointments_table db' ''1000001'' =
           Some \<lparr>AppointmentId = ''1000001'', appt_DoctorName = Some ''Dr. Sarah Jones'',
                 appt_Date = Some ''2025-05-05'', appt_Time = Some ''09:00'',
                 appt_Name = Some ''Ann Lee'', appt_Phone = Some ''5550100'',
                 appt_Status = ''confirmed''\<rparr>
     \<and> id_counter_table db' ''appointment_id'' = Some 1000001"
proof -
  let ?intent = "lex_intent (all_filled ''09:00'' ''yep'') ''Confirmed''"
  have yep: "lower ''yep'' = ''yep''" by (simp add: lower.simps lower_char_def)
  have d: "truthy (Some ''Dr. Sarah Jones'')" by (simp add: truthy_def)
  have a: "slot_available example_store (str_of (Some ''Dr. Sarah Jones''))
             (fmt (Some ''2025-05-05'') @ ''_'' @ fmt (Some ''09:00''))"
    by (simp add: str_of_def fmt_def example_slot_available)
  from step7_books [OF d a lex_event_fields(6), of "all_filled ''09:00'' ''yep''" "''Confirmed''"
      "Some ''Ann Lee''" "Some ''5550100''"]
  obtain r db' where s7: "step7 no_faults example_store ?intent (Some ''Dr. Sarah Jones'')
        (Some ''2025-05-05'') (Some ''09:00'') (Some ''Ann Lee'') (Some ''5550100'') = (Inr r, db')"
    and c: "confirmed ?intent ''1000001'' (Some ''Dr. Sarah Jones'') (Some ''2025-05-05'')
              (Some ''09:00'') = Inr r"
    and t: "\<not> slot_available db' ''Dr. Sarah Jones'' ''2025-05-05_09:00''"
    and ap: "appointments_table db' ''1000001'' =
           Some \<lparr>AppointmentId = ''1000001'', appt_DoctorName = Some ''Dr. Sarah Jones'',
                 appt_Date = Some ''2025-05-05'', appt_Time = Some ''09:00'',
                 appt_Name = Some ''Ann Lee'', appt_Phone = Some ''5550100'',
                 appt_Status = ''confirmed''\<rparr>"
    and ct: "id_counter_table db' ''appointment_id'' = Some 1000001"
    by (auto simp: example_next_id str_of_def fmt_def)
  have "dialog_steps no_faults example_store ?intent (all_filled ''09:00'' ''yep'')
          ''FulfillmentCodeHook'' ''Confirmed'' (Some ''Dr. Sarah Jones'') = (Inr r, db')"
    using s7
    by (simp add: dialog_steps_def step1_def step2_def step4_def step5_def step6_def
          all_filled_values truthy_def str_of_def example_available yep Let_def)
  then have "lambda_handler no_faults example_store
       (lex_event (all_filled ''09:00'' ''yep'') ''FulfillmentCodeHook'' ''Confirmed'') = (r, db')"
    by (simp add: lambda_handler_def try_body_all_filled)
  with c t ap ct show ?thesis by blast
qed

section \<open>A doctor's name outside ASCII\<close>

text \<open>
  Python lower-cases the Kelvin sign to \<open>k\<close>, and the capital I with a dot above to
  \<open>i\<close> and a combining dot.
\<close>

lemma lower_kelvin_sign_name: "lower kelvin_sign_name = ''dr. david park''"
  by (simp add: kelvin_sign_name_def lower.simps lower_char_def)

lemma lower_dotted_capital_i:
  "lower [CHR 0xC4, CHR 0xB0] = [CHR ''i'', CHR 0xCC, CHR 0x87]"
  "lower (''D'' @ [CHR 0xC4, CHR 0xB0] @ ''N'') = ''di'' @ [CHR 0xCC, CHR 0x87] @ ''n''"
  by (simp_all add: lower.simps lower_char_def)

lemma find_park_kelvin:
  "find (\<lambda>v. lower v = lower kelvin_sign_name) VALID_DOCTORS = Some ''Dr. David Park''"
  by (simp add: lower_kelvin_sign_name) (simp add: VALID_DOCTORS_def lower.simps lower_char_def)

lemma park_doctor_slots:
  "set_interpretedValue kelvin_doctor_slots ''DoctorName'' ''Dr. David Park''
     = Inr park_doctor_slots"
  by (simp add: set_interpretedValue_def kelvin_doctor_slots_def park_doctor_slots_def
        filled_def fun_eq_iff)

text \<open>
  Lines 63 and 78-79 on the name with the Kelvin sign: the name is accepted, the slot is
  overwritten with \<open>Dr. David Park\<close>, and with no other slot filled the turn is delegated.
\<close>

lemma kelvin_sign_doctor_is_accepted:
  "lambda_handler flt db (lex_event kelvin_doctor_slots ''DialogCodeHook'' ''None'')
     = (delegate (lex_intent park_doctor_slots ''None''), db)"
proof -
  have ne: "kelvin_sign_name \<noteq> []" by (simp add: kelvin_sign_name_def)
  have d: "get_slot_value kelvin_doctor_slots ''DoctorName'' = Some kelvin_sign_name"
    by (simp add: kelvin_doctor_slots_def get_slot_value_def filled_def)
  have v: "get_slot_value park_doctor_slots k
             = (if k = ''DoctorName'' then Some ''Dr. David Park'' else None)" for k
    by (simp add: park_doctor_slots_def get_slot_value_def)
  have "dialog_steps flt db (lex_intent park_doctor_slots ''None'') park_doctor_slots
          ''DialogCodeHook'' ''None'' (Some ''Dr. David Park'')
        = (Inr (delegate (lex_intent park_doctor_slots ''None'')), db)"
    by (simp add: dialog_steps_def step1_def step2_def step4_def step5_def step6_def v
          truthy_def Let_def)
  then have "try_body flt db (lex_event kelvin_doctor_slots ''DialogCodeHook'' ''None'')
        = (Inr (delegate (lex_intent park_doctor_slots ''None'')), db,
           lex_event park_doctor_slots ''DialogCodeHook'' ''None'')"
    using try_body_valid_doctor
      [OF lex_event_fields(1) lex_event_fields(2) lex_event_fields(3) lex_event_fields(4)
          d ne find_park_kelvin park_doctor_slots,
       where flt = flt and db = db]
    by (simp add: lex_event_fields)
  then show ?thesis by (rule lambda_handler_returns)
qed

end
